theory Spec2Isabelle
  imports Complex_Main "HOL-Library.Multiset" "HOL-Library.Sublist"
begin

section \<open>Python values\<close>

text \<open>
  The safety layer and the agents are dynamically typed: the same parameter receives a
  float at one call site and a bool at another. The values that reach the code modelled
  here are booleans, floats, integers, lists of strings and dictionaries with string
  keys. Python floats are modelled as exact reals.
\<close>

datatype pyval =
    PyBool bool
  | PyFloat real
  | PyInt int
  | PyStrs "string list"
  | PyDict "(string \<times> pyval) list"

text \<open>Truth value of a Python object, as \<^verbatim>\<open>not x\<close> and \<^verbatim>\<open>if x\<close> read it.\<close>

fun truthy :: "pyval \<Rightarrow> bool" where
  "truthy (PyBool b) = b"
| "truthy (PyFloat x) = (x \<noteq> 0)"
| "truthy (PyInt i) = (i \<noteq> 0)"
| "truthy (PyStrs xs) = (xs \<noteq> [])"
| "truthy (PyDict kvs) = (kvs \<noteq> [])"

text \<open>
  The number a value stands for in a comparison with a float: \<^verbatim>\<open>False\<close> is 0,
  \<^verbatim>\<open>True\<close> is 1. Lists and dictionaries do not compare with floats (TypeError).
\<close>

fun num_of :: "pyval \<Rightarrow> real option" where
  "num_of (PyBool b) = Some (if b then 1 else 0)"
| "num_of (PyFloat x) = Some x"
| "num_of (PyInt i) = Some (real_of_int i)"
| "num_of (PyStrs xs) = None"
| "num_of (PyDict kvs) = None"

text \<open>\<^verbatim>\<open>d.get(key, default)\<close>\<close>

definition dict_get :: "(string \<times> pyval) list \<Rightarrow> string \<Rightarrow> pyval \<Rightarrow> pyval" where
  "dict_get d k dflt = (case map_of d k of Some v \<Rightarrow> v | None \<Rightarrow> dflt)"

section \<open>Safety guardrails: severity and confidence (safety.py)\<close>

definition HALLUCINATION_LOW_THRESHOLD :: real where
  "HALLUCINATION_LOW_THRESHOLD = 0.10"

definition HALLUCINATION_MEDIUM_THRESHOLD :: real where
  "HALLUCINATION_MEDIUM_THRESHOLD = 0.20"

definition HALLUCINATION_HIGH_THRESHOLD :: real where
  "HALLUCINATION_HIGH_THRESHOLD = 0.35"

datatype py_error = TypeError | ValueError | KeyError

text \<open>
  \<^verbatim>\<open>SafetyGuardrails.assess_hallucination_severity(hallucination_rate, hallucination_detected)\<close>.
  The first parameter is compared with the thresholds, the second is only tested for truth.
\<close>

definition assess_hallucination_severity :: "pyval \<Rightarrow> pyval \<Rightarrow> py_error + string" where
  "assess_hallucination_severity hallucination_rate hallucination_detected =
     (if \<not> truthy hallucination_detected then Inr ''NONE''
      else case num_of hallucination_rate of
        None \<Rightarrow> Inl TypeError
      | Some r \<Rightarrow>
          if r < HALLUCINATION_LOW_THRESHOLD then Inr ''LOW''
          else if r < HALLUCINATION_MEDIUM_THRESHOLD then Inr ''MEDIUM''
          else if r < HALLUCINATION_HIGH_THRESHOLD then Inr ''HIGH''
          else Inr ''CRITICAL'')"

text \<open>\<^verbatim>\<open>SafetyGuardrails.get_confidence_level(quality_score, hallucination_severity)\<close>\<close>

definition get_confidence_level :: "real \<Rightarrow> string \<Rightarrow> string" where
  "get_confidence_level quality_score hallucination_severity =
     (if hallucination_severity = ''CRITICAL'' then ''VERY_LOW''
      else if hallucination_severity = ''HIGH'' then
        (if quality_score < 0.30 then ''VERY_LOW'' else ''LOW'')
      else if hallucination_severity = ''MEDIUM'' then
        (if quality_score \<ge> 0.45 then ''MEDIUM''
         else if quality_score \<ge> 0.30 then ''LOW''
         else ''VERY_LOW'')
      else if quality_score \<ge> 0.50 then ''HIGH''
      else if quality_score \<ge> 0.35 then ''MEDIUM''
      else if quality_score \<ge> 0.20 then ''LOW''
      else ''VERY_LOW'')"

text \<open>The order of the severity levels, NONE lowest.\<close>

definition severity_rank :: "string \<Rightarrow> nat" where
  "severity_rank s =
     (if s = ''NONE'' then 0 else if s = ''LOW'' then 1 else if s = ''MEDIUM'' then 2
      else if s = ''HIGH'' then 3 else 4)"

definition rank_of :: "py_error + string \<Rightarrow> nat" where
  "rank_of r = (case r of Inl e \<Rightarrow> 0 | Inr s \<Rightarrow> severity_rank s)"

section \<open>Safety guardrails: warnings (safety.py)\<close>

text \<open>
  The warning texts of \<^verbatim>\<open>generate_safety_warnings\<close>, one constructor per template:
  \<^item> \<open>CriticalHallucination\<close>: "CRITICAL: Very high hallucination rate (>35%). ..."
  \<^item> \<open>HighHallucination\<close>: "HIGH: High hallucination rate (20-35%). ..."
  \<^item> \<open>MediumHallucination\<close>: "MEDIUM: Moderate hallucination detected (10-20%). ..."
  \<^item> \<open>LowHallucination\<close>: "LOW: Minor hallucination detected (<10%). ..."
  \<^item> \<open>VeryLowQuality\<close>: "Very low quality score (<0.20). ..."
  \<^item> \<open>LowQuality\<close>: "Low quality score (0.20-0.35). ..."
  \<^item> \<open>UngroundedTokens shown total\<close>: "Ungrounded tokens detected: ...", with the
    first five tokens and the number of all of them
  \<^item> \<open>HumanOversightRequired\<close>: "HUMAN OVERSIGHT REQUIRED: This message should not be
    used without thorough manual review ..."
  \<^item> \<open>HumanReviewRecommended\<close>: "Human review recommended: While quality is
    acceptable, always verify AI-generated commit messages before pushing."
\<close>

datatype warning =
    CriticalHallucination
  | HighHallucination
  | MediumHallucination
  | LowHallucination
  | VeryLowQuality
  | LowQuality
  | UngroundedTokens "string list" nat
  | HumanOversightRequired
  | HumanReviewRecommended

text \<open>
  \<^verbatim>\<open>SafetyGuardrails.generate_safety_warnings(hallucination_severity, hallucination_details, quality_score)\<close>.
  The dictionary \<open>hallucination_details\<close> is read only through
  \<^verbatim>\<open>.get('ungrounded_tokens')\<close>; the parameter \<open>details_ungrounded\<close> is the result of
  that lookup, \<open>None\<close> when the key is absent.
\<close>

definition generate_safety_warnings :: "string \<Rightarrow> string list option \<Rightarrow> real \<Rightarrow> warning list" where
  "generate_safety_warnings hallucination_severity details_ungrounded quality_score =
     (let warnings = [];
          warnings =
            (if hallucination_severity = ''CRITICAL'' then warnings @ [CriticalHallucination]
             else if hallucination_severity = ''HIGH'' then warnings @ [HighHallucination]
             else if hallucination_severity = ''MEDIUM'' then warnings @ [MediumHallucination]
             else if hallucination_severity = ''LOW'' then warnings @ [LowHallucination]
             else warnings);
          warnings =
            (if quality_score < 0.20 then warnings @ [VeryLowQuality]
             else if quality_score < 0.35 then warnings @ [LowQuality]
             else warnings);
          warnings =
            (case details_ungrounded of
               None \<Rightarrow> warnings
             | Some tokens \<Rightarrow>
                 if tokens \<noteq> [] \<and> length tokens > 0
                 then warnings @ [UngroundedTokens (take 5 tokens) (length tokens)]
                 else warnings)
      in if hallucination_severity \<in> set [''HIGH'', ''CRITICAL''] \<or> quality_score < 0.25
         then warnings @ [HumanOversightRequired]
         else warnings @ [HumanReviewRecommended])"

section \<open>Strings\<close>

text \<open>
  Python strings are modelled as lists of 8-bit characters, so the functions below are
  those of the source on ASCII text.
\<close>

definition newline :: char where
  "newline = CHR 0x0A"

text \<open>\<^verbatim>\<open>str.lower\<close>\<close>

definition lower_char :: "char \<Rightarrow> char" where
  "lower_char c =
     (let n = (of_char c :: nat) in if 65 \<le> n \<and> n \<le> 90 then char_of (n + 32) else c)"

definition lower :: "string \<Rightarrow> string" where
  "lower s = map lower_char s"

text \<open>\<^verbatim>\<open>str.isalnum\<close>: at least one character, all of them letters or digits.\<close>

definition alnum_char :: "char \<Rightarrow> bool" where
  "alnum_char c =
     (let n = (of_char c :: nat)
      in (48 \<le> n \<and> n \<le> 57) \<or> (65 \<le> n \<and> n \<le> 90) \<or> (97 \<le> n \<and> n \<le> 122))"

definition isalnum :: "string \<Rightarrow> bool" where
  "isalnum s = (s \<noteq> [] \<and> list_all alnum_char s)"

text \<open>\<^verbatim>\<open>str.isspace\<close> on ASCII: tab, line feed, vertical tab, form feed, carriage return,
  the four separators 28 to 31 and the blank.\<close>

definition isspace :: "char \<Rightarrow> bool" where
  "isspace c = (let n = (of_char c :: nat) in (9 \<le> n \<and> n \<le> 13) \<or> (28 \<le> n \<and> n \<le> 32))"

text \<open>\<^verbatim>\<open>str.split()\<close>: the words between runs of whitespace; \<open>acc\<close> is the word
  being read.\<close>

fun split_words :: "string \<Rightarrow> string \<Rightarrow> string list" where
  "split_words acc [] = (if acc = [] then [] else [acc])"
| "split_words acc (c # cs) =
     (if isspace c
      then (if acc = [] then split_words [] cs else acc # split_words [] cs)
      else split_words (acc @ [c]) cs)"

definition py_split :: "string \<Rightarrow> string list" where
  "py_split s = split_words [] s"

text \<open>\<^verbatim>\<open>" ".join(words)\<close>\<close>

fun join_blank :: "string list \<Rightarrow> string" where
  "join_blank [] = []"
| "join_blank [w] = w"
| "join_blank (w # ws) = w @ '' '' @ join_blank ws"

text \<open>\<^verbatim>\<open>a in b\<close> on strings: \<open>a\<close> occurs in \<open>b\<close> as a contiguous substring.\<close>

fun is_substring :: "string \<Rightarrow> string \<Rightarrow> bool" where
  "is_substring a [] = (a = [])"
| "is_substring a (c # cs) = (prefix a (c # cs) \<or> is_substring a cs)"

text \<open>
  \<^verbatim>\<open>round(x, ndigits)\<close> returns the multiple of \<open>10 ^ -ndigits\<close> nearest to the binary
  float \<open>x\<close>. The model computes with real numbers, and the float that the program has
  computed for a real number need not be that number: when the real number lies exactly
  half-way between two multiples, the float lies on one side of it or is the number itself,
  and \<^verbatim>\<open>round\<close> returns the neighbour on that side, or the even one. \<open>float_round up\<close>
  is \<^verbatim>\<open>round\<close> with this choice as its argument: away from such a tie it returns the
  nearest multiple, at a tie the upper one if \<open>up\<close> holds and the lower one otherwise.
\<close>

definition round_to_int :: "bool \<Rightarrow> real \<Rightarrow> int" where
  "round_to_int up y =
     (let f = \<lfloor>y\<rfloor>; d = y - of_int f
      in if d < 1 / 2 then f else if d > 1 / 2 then f + 1
         else if up then f + 1 else f)"

definition float_round :: "bool \<Rightarrow> real \<Rightarrow> nat \<Rightarrow> real" where
  "float_round up x ndigits = of_int (round_to_int up (x * 10 ^ ndigits)) / 10 ^ ndigits"

text \<open>
  \<^verbatim>\<open>round(x, ndigits)\<close> for a float that is exactly the real number \<open>x\<close>: a tie goes to
  the even neighbour.
\<close>

definition round_exact :: "real \<Rightarrow> nat \<Rightarrow> real" where
  "round_exact x ndigits = float_round (odd \<lfloor>x * 10 ^ ndigits\<rfloor>) x ndigits"

text \<open>The real number \<open>x\<close> lies half-way between two multiples of \<open>10 ^ -ndigits\<close>.\<close>

definition decimal_tie :: "real \<Rightarrow> nat \<Rightarrow> bool" where
  "decimal_tie x ndigits = (x * 10 ^ ndigits - of_int \<lfloor>x * 10 ^ ndigits\<rfloor> = 1 / 2)"

section \<open>Evaluator (evaluate\_simple.py)\<close>

text \<open>
  The expressions that the evaluator rounds, each with the numbers that determine the
  float it evaluates to:
  \<^item> \<open>Quotient q\<close>: \<^verbatim>\<open>round(a / b, 4)\<close> for two integers with quotient \<open>q\<close> (the
    hallucination rate and the word overlap);
  \<^item> \<open>Percent r\<close>: \<^verbatim>\<open>round(r * 100, 2)\<close> for a ROUGE ratio \<open>r\<close>;
  \<^item> \<open>BleuScore precisions m n\<close>: \<^verbatim>\<open>round(bp * geo_mean * 100, 2)\<close> for the four
    precisions and the two token counts;
  \<^item> \<open>QualityScore bleu rougeL semantic detected\<close>: \<^verbatim>\<open>round(quality, 4)\<close>.
\<close>

datatype rounded_expr =
    Quotient real
  | Percent real
  | BleuScore "real list" nat nat
  | QualityScore real real real bool

text \<open>
  What the evaluator takes from outside: the tokenizer and the stop word list of the NLTK
  library, and the floating-point arithmetic, of which the model needs only \<open>tie_up\<close>:
  whether \<^verbatim>\<open>round\<close> returns the upper neighbour when the real value of a rounded
  expression is a tie.
\<close>

record evaluator_env =
  word_tokenize :: "string \<Rightarrow> string list"
  stopwords :: "string set"
  tie_up :: "rounded_expr \<Rightarrow> bool"

definition allowed_technical_terms :: "string set" where
  "allowed_technical_terms = set
     [''fix'', ''bug'', ''issue'', ''error'', ''refactor'', ''update'', ''add'',
      ''remove'', ''delete'', ''implement'', ''feature'', ''change'', ''modify'',
      ''improve'', ''optimize'', ''clean'', ''rename'', ''move'', ''merge'',
      ''function'', ''method'', ''class'', ''variable'', ''parameter'', ''return'',
      ''import'', ''export'', ''test'', ''tests'', ''testing'', ''code'', ''file'']"

subsection \<open>N-grams, ROUGE and BLEU\<close>

text \<open>
  \<^verbatim>\<open>_get_ngrams(tokens, n)\<close>: the slices \<^verbatim>\<open>tokens[i:i+n]\<close> for
  \<^verbatim>\<open>i in range(len(tokens) - n + 1)\<close>, counted in a \<^verbatim>\<open>Counter\<close> (a multiset).
  The range is empty when \<open>len(tokens) - n + 1\<close> is not positive.
\<close>

definition ngram_list :: "'a list \<Rightarrow> nat \<Rightarrow> 'a list list" where
  "ngram_list tokens n = map (\<lambda>i. take n (drop i tokens)) [0 ..< length tokens + 1 - n]"

definition get_ngrams :: "'a list \<Rightarrow> nat \<Rightarrow> 'a list multiset" where
  "get_ngrams tokens n = mset (ngram_list tokens n)"

text \<open>\<^verbatim>\<open>_rouge_n\<close>; \<^verbatim>\<open>sum(c.values())\<close> is the size of the multiset, \<^verbatim>\<open>&\<close> its intersection.\<close>

definition rouge_n :: "'a list \<Rightarrow> 'a list \<Rightarrow> nat \<Rightarrow> real" where
  "rouge_n gen_tokens ref_tokens n =
     (let gen_ngrams = get_ngrams gen_tokens n;
          ref_ngrams = get_ngrams ref_tokens n
      in if size ref_ngrams = 0 then 0
         else let matches = size (gen_ngrams \<inter># ref_ngrams);
                  total_ref = size ref_ngrams
              in if total_ref > 0 then real matches / real total_ref else 0)"

text \<open>
  \<^verbatim>\<open>_lcs\<close>: the table \<open>dp\<close> of \<open>(m + 1) \<times> (n + 1)\<close> zeros, filled row by row for
  \<open>i\<close> in \<open>1..m\<close> and \<open>j\<close> in \<open>1..n\<close>; the result is \<open>dp[m][n]\<close>.
\<close>

definition lcs_cell :: "'a list \<Rightarrow> 'a list \<Rightarrow> nat \<Rightarrow> nat list list \<Rightarrow> nat \<Rightarrow> nat list list" where
  "lcs_cell seq1 seq2 i dp j =
     (if seq1 ! (i - 1) = seq2 ! (j - 1)
      then dp[i := (dp ! i)[j := dp ! (i - 1) ! (j - 1) + 1]]
      else dp[i := (dp ! i)[j := max (dp ! (i - 1) ! j) (dp ! i ! (j - 1))]])"

definition lcs_row :: "'a list \<Rightarrow> 'a list \<Rightarrow> nat list list \<Rightarrow> nat \<Rightarrow> nat list list" where
  "lcs_row seq1 seq2 dp i = foldl (lcs_cell seq1 seq2 i) dp [1 ..< length seq2 + 1]"

definition lcs :: "'a list \<Rightarrow> 'a list \<Rightarrow> nat" where
  "lcs seq1 seq2 =
     (let m = length seq1; n = length seq2;
          dp = replicate (m + 1) (replicate (n + 1) 0);
          dp = foldl (lcs_row seq1 seq2) dp [1 ..< m + 1]
      in dp ! m ! n)"

definition rouge_l :: "'a list \<Rightarrow> 'a list \<Rightarrow> real" where
  "rouge_l gen_tokens ref_tokens =
     (let lcs_length = lcs gen_tokens ref_tokens
      in if length ref_tokens = 0 then 0
         else real lcs_length / real (length ref_tokens))"

record rouge_scores =
  rouge1 :: real
  rouge2 :: real
  rougeL :: real

text \<open>\<^verbatim>\<open>compute_rouge\<close> on the two token sequences; \<open>tie\<close> is \<open>tie_up\<close> of the
  environment.\<close>

definition rouge_of_tokens :: "(rounded_expr \<Rightarrow> bool) \<Rightarrow> 'a list \<Rightarrow> 'a list \<Rightarrow> rouge_scores" where
  "rouge_of_tokens tie gen_tokens ref_tokens =
     (let r1 = rouge_n gen_tokens ref_tokens 1;
          r2 = rouge_n gen_tokens ref_tokens 2;
          rl = rouge_l gen_tokens ref_tokens
      in \<lparr> rouge1 = float_round (tie (Percent r1)) (r1 * 100) 2,
           rouge2 = float_round (tie (Percent r2)) (r2 * 100) 2,
           rougeL = float_round (tie (Percent rl)) (rl * 100) 2 \<rparr>)"

definition compute_rouge :: "evaluator_env \<Rightarrow> string \<Rightarrow> string \<Rightarrow> rouge_scores" where
  "compute_rouge env generated reference =
     (let gen_tokens = word_tokenize env (lower generated);
          ref_tokens = word_tokenize env (lower reference)
      in rouge_of_tokens (tie_up env) gen_tokens ref_tokens)"

text \<open>
  \<^verbatim>\<open>compute_bleu\<close>: the modified n-gram precisions for \<open>n\<close> from 1 to 4, their geometric
  mean (0 when one of them is 0) and the brevity penalty.
\<close>

definition bleu_precision :: "'a list \<Rightarrow> 'a list \<Rightarrow> nat \<Rightarrow> real" where
  "bleu_precision gen_tokens ref_tokens n =
     (let gen_ngrams = get_ngrams gen_tokens n;
          ref_ngrams = get_ngrams ref_tokens n
      in if size gen_ngrams = 0 then 0
         else let matches = size (gen_ngrams \<inter># ref_ngrams);
                  total = size gen_ngrams
              in if total > 0 then real matches / real total else 0)"

definition bleu_of_tokens :: "(rounded_expr \<Rightarrow> bool) \<Rightarrow> 'a list \<Rightarrow> 'a list \<Rightarrow> real" where
  "bleu_of_tokens tie gen_tokens ref_tokens =
     (if length gen_tokens = 0 then 0
      else let precisions = map (bleu_precision gen_tokens ref_tokens) [1 ..< 5];
               geo_mean = (if list_all (\<lambda>p. p > 0) precisions
                           then exp (sum_list (map ln precisions) / 4) else 0);
               bp = (if length gen_tokens \<ge> length ref_tokens then 1
                     else exp (1 - real (length ref_tokens) / real (length gen_tokens)));
               bleu = bp * geo_mean * 100
           in float_round
                (tie (BleuScore precisions (length gen_tokens) (length ref_tokens))) bleu 2)"

definition compute_bleu :: "evaluator_env \<Rightarrow> string \<Rightarrow> string \<Rightarrow> real" where
  "compute_bleu env generated reference =
     (let gen_tokens = word_tokenize env (lower generated);
          ref_tokens = word_tokenize env (lower reference)
      in bleu_of_tokens (tie_up env) gen_tokens ref_tokens)"

subsection \<open>Word overlap\<close>

text \<open>\<^verbatim>\<open>compute_word_overlap\<close>: Jaccard similarity of the two sets of words that are
  not stop words, rounded to four digits.\<close>

definition compute_word_overlap :: "evaluator_env \<Rightarrow> string \<Rightarrow> string \<Rightarrow> real" where
  "compute_word_overlap env generated reference =
     (let gen_words = set (word_tokenize env (lower generated));
          ref_words = set (word_tokenize env (lower reference));
          gen_words = gen_words - stopwords env;
          ref_words = ref_words - stopwords env
      in if card gen_words = 0 \<or> card ref_words = 0 then 0
         else let intersection = card (gen_words \<inter> ref_words);
                  union = card (gen_words \<union> ref_words)
              in if union > 0
                 then float_round (tie_up env (Quotient (real intersection / real union)))
                        (real intersection / real union) 4
                 else 0)"

subsection \<open>Hallucination detection\<close>

text \<open>\<^verbatim>\<open>_extract_meaningful_tokens\<close>\<close>

definition extract_meaningful_tokens :: "evaluator_env \<Rightarrow> string \<Rightarrow> string list" where
  "extract_meaningful_tokens env text =
     (let tokens = word_tokenize env (lower text)
      in filter (\<lambda>token. isalnum token \<and> token \<notin> stopwords env \<and> length token > 2) tokens)"

text \<open>
  The four substitutions of \<^verbatim>\<open>_extract_diff_tokens\<close>.
  \<^verbatim>\<open>re.sub(r'^[+-]', '', diff, flags=re.MULTILINE)\<close> removes one \<open>+\<close> or \<open>-\<close> at the
  start of each line; \<open>at_start\<close> says that the position is the start of a line.
\<close>

fun strip_line_markers :: "bool \<Rightarrow> string \<Rightarrow> string" where
  "strip_line_markers at_start [] = []"
| "strip_line_markers at_start (c # cs) =
     (if at_start \<and> (c = CHR ''+'' \<or> c = CHR ''-'') then strip_line_markers False cs
      else c # strip_line_markers (c = newline) cs)"

text \<open>
  \<^verbatim>\<open>re.sub(pat + r'.*?\n', '', s)\<close> for a literal \<open>pat\<close>: each occurrence of \<open>pat\<close> that
  is followed by a newline later in the text is removed up to and including the first
  such newline (the dot does not match a newline).
\<close>

function remove_through_newline :: "string \<Rightarrow> string \<Rightarrow> string" where
  "remove_through_newline pat [] = []"
| "remove_through_newline pat (c # cs) =
     (if prefix pat (c # cs) \<and> newline \<in> set (drop (length pat) (c # cs))
      then remove_through_newline pat
             (tl (dropWhile (\<lambda>x. x \<noteq> newline) (drop (length pat) (c # cs))))
      else c # remove_through_newline pat cs)"
  by pat_completeness auto
termination
proof (relation "measure (\<lambda>(pat, s). length s)")
  show "wf (measure (\<lambda>(pat, s). length s))" by simp
next
  fix pat :: string and c :: char and cs :: string
  let ?r = "dropWhile (\<lambda>x. x \<noteq> newline) (drop (length pat) (c # cs))"
  have "length ?r \<le> length (drop (length pat) (c # cs))"
    by (rule length_dropWhile_le)
  also have "\<dots> \<le> Suc (length cs)" by simp
  finally have "length (tl ?r) \<le> length cs" by simp
  then show "((pat, tl ?r), (pat, c # cs)) \<in> measure (\<lambda>(pat, s). length s)" by simp
next
  fix pat :: string and c :: char and cs :: string
  show "((pat, cs), (pat, c # cs)) \<in> measure (\<lambda>(pat, s). length s)" by simp
qed

text \<open>
  \<^verbatim>\<open>re.sub(r'@@.*?@@', '', s)\<close>: \<open>find_close\<close> looks for the closing \<open>@@\<close> on the same
  line and returns the text after it.
\<close>

fun find_close :: "string \<Rightarrow> string option" where
  "find_close (a # b # cs) =
     (if a = CHR ''@'' \<and> b = CHR ''@'' then Some cs
      else if a = newline then None
      else find_close (b # cs))"
| "find_close cs = None"

function remove_hunk_markers :: "string \<Rightarrow> string" where
  "remove_hunk_markers (a # b # cs) =
     (if a = CHR ''@'' \<and> b = CHR ''@'' then
        (case find_close cs of
           Some rest \<Rightarrow> remove_hunk_markers rest
         | None \<Rightarrow> a # remove_hunk_markers (b # cs))
      else a # remove_hunk_markers (b # cs))"
| "remove_hunk_markers [c] = [c]"
| "remove_hunk_markers [] = []"
  by pat_completeness auto
termination
proof (relation "measure length")
  show "wf (measure length)" by simp
next
  fix a b :: char and cs rest :: string
  assume "find_close cs = Some rest"
  then have "length rest < length cs"
  proof (induction cs rule: find_close.induct)
    case (1 a b cs)
    then show ?case by (auto split: if_splits)
  qed simp_all
  then show "(rest, a # b # cs) \<in> measure length" by simp
qed simp_all

text \<open>\<^verbatim>\<open>_extract_diff_tokens\<close>\<close>

definition extract_diff_tokens :: "evaluator_env \<Rightarrow> string \<Rightarrow> string list" where
  "extract_diff_tokens env diff =
     (let diff_clean = strip_line_markers True diff;
          diff_clean = remove_through_newline ''diff --git'' diff_clean;
          diff_clean = remove_through_newline ''index'' diff_clean;
          diff_clean = remove_hunk_markers diff_clean
      in word_tokenize env (lower diff_clean))"

record hallucination_report =
  detected :: bool
  hallucination_rate :: real
  ungrounded_tokens :: "string list"
  total_tokens_checked :: nat

text \<open>
  The loop of \<^verbatim>\<open>detect_hallucination\<close> over the message tokens; its state is the pair
  \<open>(ungrounded_tokens, total_checked)\<close>.
\<close>

definition check_token :: "string list \<Rightarrow> string list \<times> nat \<Rightarrow> string \<Rightarrow> string list \<times> nat" where
  "check_token diff_tokens st token =
     (case st of (ungrounded, total_checked) \<Rightarrow>
        if lower token \<in> allowed_technical_terms then (ungrounded, total_checked)
        else let total_checked = total_checked + 1
             in if \<not> list_ex (\<lambda>diff_token. is_substring (lower token) (lower diff_token)) diff_tokens
                then (ungrounded @ [token], total_checked)
                else (ungrounded, total_checked))"

text \<open>
  \<^verbatim>\<open>detect_hallucination\<close>. The two evaluators differ only in the threshold of
  \<open>detected\<close>: 0.10 in evaluate\_simple.py, 0.15 in evaluate.py.
\<close>

definition detect_hallucination_with :: "real \<Rightarrow> evaluator_env \<Rightarrow> string \<Rightarrow> string \<Rightarrow> hallucination_report" where
  "detect_hallucination_with threshold env message diff =
     (let message_tokens = extract_meaningful_tokens env message;
          diff_tokens = extract_diff_tokens env diff;
          (ungrounded, total_checked) = foldl (check_token diff_tokens) ([], 0) message_tokens;
          rate = (if total_checked = 0 then 0
                  else real (length ungrounded) / real total_checked)
      in \<lparr> detected = rate > threshold,
           hallucination_rate = float_round (tie_up env (Quotient rate)) rate 4,
           ungrounded_tokens = ungrounded,
           total_tokens_checked = total_checked \<rparr>)"

definition detect_hallucination :: "evaluator_env \<Rightarrow> string \<Rightarrow> string \<Rightarrow> hallucination_report" where
  "detect_hallucination = detect_hallucination_with 0.10"

definition detect_hallucination_phase3 :: "evaluator_env \<Rightarrow> string \<Rightarrow> string \<Rightarrow> hallucination_report" where
  "detect_hallucination_phase3 = detect_hallucination_with 0.15"

subsection \<open>Quality score and the evaluation result\<close>

text \<open>
  \<^verbatim>\<open>_compute_quality_score(results)\<close> reads \<^verbatim>\<open>results['bleu']\<close>,
  \<^verbatim>\<open>results['rouge']['rougeL']\<close>, \<^verbatim>\<open>results['semantic_similarity']\<close> and
  \<^verbatim>\<open>results['hallucination']['detected']\<close>, which are its four arguments here.
\<close>

definition compute_quality_score ::
  "evaluator_env \<Rightarrow> real \<Rightarrow> real \<Rightarrow> real \<Rightarrow> bool \<Rightarrow> real" where
  "compute_quality_score env results_bleu results_rougeL results_semantic results_detected =
     (let bleu = results_bleu / 100;
          rougeL = results_rougeL / 100;
          semantic = results_semantic;
          hallucination_penalty = (if results_detected then 0 else 0.1);
          quality = (0.3 * bleu) + (0.3 * rougeL) + (0.3 * semantic) + hallucination_penalty
      in float_round
           (tie_up env (QualityScore results_bleu results_rougeL results_semantic
              results_detected))
           quality 4)"

definition rouge_dict :: "rouge_scores \<Rightarrow> (string \<times> pyval) list" where
  "rouge_dict r =
     [(''rouge1'', PyFloat (rouge1 r)), (''rouge2'', PyFloat (rouge2 r)),
      (''rougeL'', PyFloat (rougeL r))]"

definition hallucination_dict :: "hallucination_report \<Rightarrow> (string \<times> pyval) list" where
  "hallucination_dict h =
     [(''detected'', PyBool (detected h)),
      (''hallucination_rate'', PyFloat (hallucination_rate h)),
      (''ungrounded_tokens'', PyStrs (ungrounded_tokens h)),
      (''total_tokens_checked'', PyInt (int (total_tokens_checked h)))]"

text \<open>\<^verbatim>\<open>evaluate_message(generated, reference, diff)\<close>: the dictionary of results.\<close>

definition evaluate_message :: "evaluator_env \<Rightarrow> string \<Rightarrow> string \<Rightarrow> string \<Rightarrow> (string \<times> pyval) list" where
  "evaluate_message env generated reference diff =
     (let bleu_score = compute_bleu env generated reference;
          rouge = compute_rouge env generated reference;
          semantic_sim = compute_word_overlap env generated reference;
          hallucination_results = detect_hallucination env generated diff;
          quality_score =
            compute_quality_score env bleu_score (rougeL rouge) semantic_sim
              (detected hallucination_results)
      in [(''bleu'', PyFloat bleu_score),
          (''rouge'', PyDict (rouge_dict rouge)),
          (''semantic_similarity'', PyFloat semantic_sim),
          (''hallucination'', PyDict (hallucination_dict hallucination_results)),
          (''quality_score'', PyFloat quality_score)])"

text \<open>
  An environment for examples. Its tokenizer returns the words between blanks, which is
  what the library's tokenizer returns on words of letters separated by single blanks;
  its stop words are some of the library's English stop words; at a tie its \<^verbatim>\<open>round\<close>
  returns the lower neighbour, and no example below rounds a tie.
\<close>

definition example_nltk :: evaluator_env where
  "example_nltk = \<lparr> word_tokenize = py_split,
                    stopwords = set [''the'', ''a'', ''an'', ''in'', ''to'', ''of'', ''and'', ''is''],
                    tie_up = (\<lambda>e. False) \<rparr>"

section \<open>Output sanitation (safety.py)\<close>

text \<open>\<^verbatim>\<open>str.strip()\<close>\<close>

definition strip :: "string \<Rightarrow> string" where
  "strip s = rev (dropWhile isspace (rev (dropWhile isspace s)))"

text \<open>\<^verbatim>\<open>s.replace(old, new)\<close> for two strings of one character each.\<close>

definition replace_char :: "char \<Rightarrow> char \<Rightarrow> string \<Rightarrow> string" where
  "replace_char old new s = map (\<lambda>c. if c = old then new else c) s"

text \<open>
  \<^verbatim>\<open>re.sub(r'\n{3,}', '\n\n', s)\<close>: every maximal run of three or more newlines becomes
  two newlines; shorter runs stay.
\<close>

function collapse_newlines :: "string \<Rightarrow> string" where
  "collapse_newlines [] = []"
| "collapse_newlines (c # cs) =
     (if c = newline then
        (let run = c # takeWhile (\<lambda>x. x = newline) cs;
             rest = dropWhile (\<lambda>x. x = newline) cs
         in (if length run \<ge> 3 then [newline, newline] else run) @ collapse_newlines rest)
      else c # collapse_newlines cs)"
  by pat_completeness auto
termination
  by (relation "measure length") (auto simp: less_Suc_eq_le length_dropWhile_le)

definition MAX_MESSAGE_LENGTH :: nat where
  "MAX_MESSAGE_LENGTH = 500"

text \<open>\<^verbatim>\<open>SafetyGuardrails.sanitize_output\<close>\<close>

definition sanitize_output :: "string \<Rightarrow> string" where
  "sanitize_output commit_message =
     (let sanitized = strip commit_message;
          sanitized = replace_char (CHR 0x60) (CHR 0x27) sanitized;
          sanitized = collapse_newlines sanitized
      in if length sanitized > MAX_MESSAGE_LENGTH
         then take MAX_MESSAGE_LENGTH sanitized @ ''... (truncated)''
         else sanitized)"

section \<open>Input validation (safety.py)\<close>

definition MAX_DIFF_SIZE_KB :: real where
  "MAX_DIFF_SIZE_KB = 100"

definition MAX_DIFF_LINES :: nat where
  "MAX_DIFF_LINES = 1000"

definition RATE_LIMIT_RPM :: nat where
  "RATE_LIMIT_RPM = 60"

text \<open>
  The six entries of \<^verbatim>\<open>SENSITIVE_PATTERNS\<close>, in their order: the assignments of a quoted
  value to \<^verbatim>\<open>password\<close>, \<^verbatim>\<open>api_key\<close>, \<^verbatim>\<open>secret\<close> and \<^verbatim>\<open>token\<close>, a run of
  sixteen digits, and an e-mail address.
\<close>

datatype sensitive_pattern =
    PasswordAssignment
  | ApiKeyAssignment
  | SecretAssignment
  | TokenAssignment
  | SixteenDigits
  | EmailAddress

definition SENSITIVE_PATTERNS :: "sensitive_pattern list" where
  "SENSITIVE_PATTERNS =
     [PasswordAssignment, ApiKeyAssignment, SecretAssignment, TokenAssignment,
      SixteenDigits, EmailAddress]"

text \<open>
  The messages that \<^verbatim>\<open>validate_input\<close> returns, one constructor per message template:
  \<^item> \<open>RateLimitExceeded\<close>: "Error: Rate limit exceeded. Maximum 60 requests per minute. ..."
  \<^item> \<open>RateLimitOk n\<close>: "Rate limit: n/60 requests this minute"
  \<^item> \<open>EmptyDiff\<close>: "Error: Diff is empty. Please provide a valid git diff."
  \<^item> \<open>SizeExceeded kb\<close>: "Error: Diff size (kb KB) exceeds maximum allowed size (100 KB). ..."
  \<^item> \<open>LineCountExceeded n\<close>: "Error: Diff has n lines, exceeding maximum of 1000 lines. ..."
  \<^item> \<open>NotADiff\<close>: "Warning: Input does not appear to be a valid git diff. ..."
  \<^item> \<open>SensitiveData\<close>: "Security Warning: Diff appears to contain sensitive data ..."
  \<^item> \<open>NoSensitiveData\<close>: "No sensitive data detected"
  \<^item> \<open>ValidationPassed\<close>: "Input validation passed"
\<close>

datatype message =
    RateLimitExceeded
  | RateLimitOk nat
  | EmptyDiff
  | SizeExceeded real
  | LineCountExceeded nat
  | NotADiff
  | SensitiveData
  | NoSensitiveData
  | ValidationPassed

text \<open>
  The metadata dictionary; a key that has not been set is \<open>None\<close>. The time stamp
  \<^verbatim>\<open>validation_time\<close> is left out.
\<close>

record metadata =
  ip_address :: string
  checks_performed :: "string list"
  diff_size_kb :: "real option"
  line_count :: "nat option"
  sensitive_data_detected :: "bool option"

text \<open>
  \<^verbatim>\<open>rate_limit_store\<close> is a \<^verbatim>\<open>defaultdict(list)\<close>: every client has a list of time
  stamps, empty at first.
\<close>

type_synonym rate_limit_store = "string \<Rightarrow> real list"

text \<open>
  \<^verbatim>\<open>_check_rate_limit(ip_address)\<close>; \<open>current_time\<close> is the value of \<^verbatim>\<open>time.time()\<close>.
  The result is the new store, the flag and the message.
\<close>

definition check_rate_limit ::
  "rate_limit_store \<Rightarrow> real \<Rightarrow> string \<Rightarrow> rate_limit_store \<times> bool \<times> message" where
  "check_rate_limit store current_time ip =
     (let store = store(ip := filter (\<lambda>t. current_time - t < 60) (store ip));
          request_count = length (store ip)
      in if request_count \<ge> RATE_LIMIT_RPM then (store, False, RateLimitExceeded)
         else (store(ip := store ip @ [current_time]), True, RateLimitOk (request_count + 1)))"

text \<open>
  \<^verbatim>\<open>_check_sensitive_data(diff)\<close>. \<open>re_search p diff\<close> says whether
  \<^verbatim>\<open>re.search(p, diff, re.IGNORECASE)\<close> finds a match; the regular expression engine is a
  parameter of the model.
\<close>

fun search_patterns :: "(sensitive_pattern \<Rightarrow> string \<Rightarrow> bool) \<Rightarrow> sensitive_pattern list \<Rightarrow> string \<Rightarrow> bool \<times> message" where
  "search_patterns re_search [] diff = (False, NoSensitiveData)"
| "search_patterns re_search (pattern # patterns) diff =
     (if re_search pattern diff then (True, SensitiveData)
      else search_patterns re_search patterns diff)"

definition check_sensitive_data :: "(sensitive_pattern \<Rightarrow> string \<Rightarrow> bool) \<Rightarrow> string \<Rightarrow> bool \<times> message" where
  "check_sensitive_data re_search diff = search_patterns re_search SENSITIVE_PATTERNS diff"

text \<open>\<^verbatim>\<open>s.split(sep)\<close> for a separator of one character.\<close>

fun split_on :: "char \<Rightarrow> string \<Rightarrow> string \<Rightarrow> string list" where
  "split_on sep acc [] = [acc]"
| "split_on sep acc (c # cs) =
     (if c = sep then acc # split_on sep [] cs else split_on sep (acc @ [c]) cs)"

text \<open>\<^verbatim>\<open>line.startswith(('diff --git', '@@', '---', '+++', '+', '-'))\<close>\<close>

definition has_diff_marker :: "string \<Rightarrow> bool" where
  "has_diff_marker line =
     list_ex (\<lambda>marker. prefix marker line) [''diff --git'', ''@@'', ''---'', ''+++'', ''+'', ''-'']"

text \<open>
  \<^verbatim>\<open>validate_input(diff, ip_address)\<close>. The result is the new rate limit store and the
  triple \<open>(is_valid, message, metadata)\<close>. The size is the number of bytes of the diff;
  divided by 1024 it is a number that a float holds exactly, so \<open>round_exact\<close> rounds it.
\<close>

definition validate_input ::
  "(sensitive_pattern \<Rightarrow> string \<Rightarrow> bool) \<Rightarrow> rate_limit_store \<Rightarrow> real \<Rightarrow> string \<Rightarrow> string
     \<Rightarrow> rate_limit_store \<times> bool \<times> message \<times> metadata" where
  "validate_input re_search store current_time diff ip =
     (let metadata = \<lparr> ip_address = ip, checks_performed = [], diff_size_kb = None,
                         line_count = None, sensitive_data_detected = None \<rparr>;
          (store, is_allowed, rate_msg) = check_rate_limit store current_time ip;
          metadata = metadata\<lparr> checks_performed := checks_performed metadata @ [''rate_limit''] \<rparr>
      in if \<not> is_allowed then (store, False, rate_msg, metadata)
      else if diff = [] \<or> strip diff = [] then
        (store, False, EmptyDiff,
         metadata\<lparr> checks_performed := checks_performed metadata @ [''empty_check''] \<rparr>)
      else
        let size_kb = real (length diff) / 1024;
            metadata = metadata\<lparr> diff_size_kb := Some (round_exact size_kb 2) \<rparr>;
            metadata = metadata\<lparr> checks_performed := checks_performed metadata @ [''size_limit''] \<rparr>
        in if size_kb > MAX_DIFF_SIZE_KB then (store, False, SizeExceeded size_kb, metadata)
        else
          let lines = split_on newline [] diff;
              n_lines = length lines;
              metadata = metadata\<lparr> line_count := Some n_lines \<rparr>;
              metadata = metadata\<lparr> checks_performed := checks_performed metadata @ [''line_count''] \<rparr>
          in if n_lines > MAX_DIFF_LINES then (store, False, LineCountExceeded n_lines, metadata)
          else
            let has_diff_markers = list_ex has_diff_marker (take 20 lines);
                metadata = metadata\<lparr> checks_performed :=
                             checks_performed metadata @ [''format_validation''] \<rparr>
            in if \<not> has_diff_markers then (store, False, NotADiff, metadata)
            else
              let (sensitive_found, sensitive_msg) = check_sensitive_data re_search diff;
                  metadata = metadata\<lparr> checks_performed :=
                               checks_performed metadata @ [''sensitive_data''] \<rparr>;
                  metadata = metadata\<lparr> sensitive_data_detected := Some sensitive_found \<rparr>
              in if sensitive_found then (store, False, sensitive_msg, metadata)
              else (store, True, ValidationPassed,
                    metadata\<lparr> checks_performed := checks_performed metadata @ [''all_passed''] \<rparr>))"

text \<open>
  A matcher for examples: it finds the password pattern in a text that contains the word
  \<^verbatim>\<open>password\<close> and nothing else. On the example diffs below it answers as the regular
  expression engine does.
\<close>

definition example_search :: "sensitive_pattern \<Rightarrow> string \<Rightarrow> bool" where
  "example_search pattern text =
     (pattern = PasswordAssignment \<and> is_substring ''password'' (lower text))"

definition example_store :: rate_limit_store where
  "example_store = (\<lambda>ip. [])(''10.0.0.2'' := replicate 60 50)"

section \<open>Multi-agent workflow (multi\_agent.py)\<close>

subsection \<open>Data\<close>

text \<open>
  The issues that the validator reports, one constructor per message template; the
  refiner and \<^verbatim>\<open>_generate_suggestions\<close> only test which of the four phrases an issue
  contains, and each template contains exactly one of them:
  \<^item> \<open>HallucinationIssue ratio\<close>: "Hallucination detected (ratio ungrounded tokens)"
  \<^item> \<open>LowQualityIssue q\<close>: "Low quality score (q)"
  \<^item> \<open>TooShortIssue\<close>: "Message too short (< 10 chars)"
  \<^item> \<open>TooLongIssue\<close>: "Message too long (> 500 chars)"
\<close>

datatype issue =
    HallucinationIssue pyval
  | LowQualityIssue real
  | TooShortIssue
  | TooLongIssue

text \<open>
  The suggestions: "Remove ungrounded tokens not present in diff", "Add more specific
  details about code changes", "Expand message to include what was changed and why",
  "Condense message to focus on key changes".
\<close>

datatype suggestion = RemoveUngrounded | AddDetails | ExpandMessage | CondenseMessage

text \<open>
  The changes that the refiner reports: "Expanded short message", "Truncated long
  message", "Removed ungrounded tokens", "Applied LLM-based refinement".
\<close>

datatype change = ExpandedShort | TruncatedLong | RemovedUngrounded | AppliedLLM

text \<open>
  The validator's \<open>feedback\<close> dictionary and its \<open>output_data\<close>; the fields carry the
  prefixes \<open>fb_\<close> and \<open>out_\<close> of their dictionary.
\<close>

record feedback =
  fb_is_valid :: bool
  fb_issues :: "issue list"
  fb_suggestions :: "suggestion list"
  fb_severity :: string
  fb_confidence :: string

record validator_output =
  out_is_valid :: bool
  out_feedback :: feedback
  out_metrics :: "(string \<times> pyval) list"

record refiner_output =
  refined_message :: string
  changes_made :: "change list"

text \<open>The dictionaries \<open>input_data\<close> and \<open>output_data\<close> of the three agents.\<close>

datatype agent_input =
    GeneratorInput string
  | ValidatorInput string string string
  | RefinerInput string feedback string

datatype agent_output =
    GeneratorOutput string
  | ValidatorOutput validator_output
  | RefinerOutput refiner_output

text \<open>
  The reasoning text of a decision: the fixed text of the generator; the validator's
  text with the number of issues, the severity, the confidence and the decision; the
  refiner's text with the changes, or "Message passed validation. No refinement needed."
\<close>

datatype reasoning =
    GeneratorReasoning
  | ValidatorReasoning nat string string bool
  | RefinerUnchanged
  | RefinerApplied "change list"

text \<open>\<^verbatim>\<open>AgentDecision\<close>, without the time stamp and the execution time.\<close>

record agent_decision =
  agent_name :: string
  action :: string
  input_data :: "(string \<times> pyval) list"
  output_data :: "(string \<times> pyval) list"
  decision_reasoning :: reasoning

text \<open>
  The state of the \<^verbatim>\<open>GovernanceController\<close>: its audit trail. \<open>validation_calls\<close> is
  not in the source: it counts the calls of \<^verbatim>\<open>ValidatorAgent.execute\<close>, so that a bound
  on them can be stated.
\<close>

record governance =
  audit_trail :: "agent_decision list"
  validation_calls :: nat

text \<open>
  What the agents take from outside: the model service (\<open>None\<close> when the generation
  fails), the environment of the evaluator, and Python's \<^verbatim>\<open>str\<close> of the two dictionaries, which the
  governance checks search and measure.
\<close>

record agent_env =
  generate :: "string \<Rightarrow> string option"
  nlp :: evaluator_env
  str_input :: "agent_input \<Rightarrow> string"
  str_output :: "agent_output \<Rightarrow> string"

subsection \<open>Governance checks\<close>

text \<open>\<^verbatim>\<open>input_data.get("diff", "")\<close> and \<^verbatim>\<open>input_data.get("message", "")\<close>\<close>

fun input_diff :: "agent_input \<Rightarrow> string" where
  "input_diff (GeneratorInput diff) = diff"
| "input_diff (ValidatorInput message diff reference) = diff"
| "input_diff (RefinerInput message fb diff) = diff"

fun input_message :: "agent_input \<Rightarrow> string" where
  "input_message (GeneratorInput diff) = []"
| "input_message (ValidatorInput message diff reference) = message"
| "input_message (RefinerInput message fb diff) = message"

text \<open>\<^verbatim>\<open>_check_required_fields\<close>: the keys are present by construction; the generator
  also needs a non-empty diff.\<close>

fun check_required_fields :: "agent_input \<Rightarrow> bool" where
  "check_required_fields (GeneratorInput diff) = (diff \<noteq> [])"
| "check_required_fields (ValidatorInput message diff reference) = True"
| "check_required_fields (RefinerInput message fb diff) = True"

definition check_size_limits :: "agent_input \<Rightarrow> bool" where
  "check_size_limits inp =
     (length (input_diff inp) < 100000 \<and> length (input_message inp) < 5000)"

definition check_malicious_content :: "agent_env \<Rightarrow> agent_input \<Rightarrow> bool" where
  "check_malicious_content env inp =
     (let text = str_input env inp;
          malicious_patterns = [''<script>'', ''eval('', ''exec('', ''__import__'']
      in \<not> list_ex (\<lambda>pattern. is_substring pattern text) malicious_patterns)"

definition validate_agent_input :: "agent_env \<Rightarrow> agent_input \<Rightarrow> bool" where
  "validate_agent_input env inp =
     list_all id [check_required_fields inp, check_size_limits inp,
                  check_malicious_content env inp]"

text \<open>\<^verbatim>\<open>_check_output_format\<close>: the keys are present by construction.\<close>

definition check_output_format :: "agent_output \<Rightarrow> bool" where
  "check_output_format out = True"

definition check_unsafe_output :: "agent_env \<Rightarrow> agent_output \<Rightarrow> bool" where
  "check_unsafe_output env out = (length (str_output env out) < 10000)"

fun check_quality :: "agent_output \<Rightarrow> bool" where
  "check_quality (GeneratorOutput message) = (10 \<le> length message \<and> length message \<le> 500)"
| "check_quality out = True"

definition validate_agent_output :: "agent_env \<Rightarrow> agent_output \<Rightarrow> bool" where
  "validate_agent_output env out =
     list_all id [check_output_format out, check_unsafe_output env out, check_quality out]"

definition log_agent_decision :: "governance \<Rightarrow> agent_decision \<Rightarrow> governance" where
  "log_agent_decision gov decision = gov\<lparr> audit_trail := audit_trail gov @ [decision] \<rparr>"

subsection \<open>Generator\<close>

text \<open>
  \<^verbatim>\<open>GeneratorAgent.execute\<close>. An exception leaves the function with the state of the
  governance controller at that moment.
\<close>

definition generator_execute ::
  "agent_env \<Rightarrow> governance \<Rightarrow> string \<Rightarrow> (py_error \<times> governance) + (governance \<times> string)" where
  "generator_execute env gov diff =
     (if \<not> validate_agent_input env (GeneratorInput diff) then Inl (ValueError, gov)
      else
        let message = (case generate env diff of
                         Some m \<Rightarrow> m
                       | None \<Rightarrow> ''Error generating message'')
        in if \<not> validate_agent_output env (GeneratorOutput message) then Inl (ValueError, gov)
           else
             let decision = \<lparr> agent_name = ''GeneratorAgent'',
                               action = ''generate_initial_message'',
                               input_data = [(''diff_size'', PyInt (int (length diff)))],
                               output_data = [(''message_length'', PyInt (int (length message)))],
                               decision_reasoning = GeneratorReasoning \<rparr>
             in Inr (log_agent_decision gov decision, message))"

subsection \<open>Validator\<close>

text \<open>The metrics that the validator uses when there is no reference message.\<close>

definition default_metrics :: "(string \<times> pyval) list" where
  "default_metrics =
     [(''bleu'', PyFloat 0), (''rouge_l'', PyFloat 0), (''semantic_similarity'', PyFloat 0),
      (''hallucination_detected'', PyBool False), (''ungrounded_ratio'', PyFloat 0)]"

text \<open>\<^verbatim>\<open>_generate_suggestions\<close>\<close>

fun suggestion_of :: "issue \<Rightarrow> suggestion" where
  "suggestion_of (HallucinationIssue r) = RemoveUngrounded"
| "suggestion_of (LowQualityIssue q) = AddDetails"
| "suggestion_of TooShortIssue = ExpandMessage"
| "suggestion_of TooLongIssue = CondenseMessage"

definition generate_suggestions :: "issue list \<Rightarrow> suggestion list" where
  "generate_suggestions iss = map suggestion_of iss"

text \<open>
  The part of \<^verbatim>\<open>ValidatorAgent.execute\<close> between the two governance checks: the
  metrics, the safety assessment, the verdict and the feedback. The arguments of
  \<open>evaluate_message\<close> and of \<open>assess_hallucination_severity\<close> are in the order in which
  the source passes them.
\<close>

definition validator_decision ::
  "agent_env \<Rightarrow> string \<Rightarrow> string \<Rightarrow> string \<Rightarrow> py_error + validator_output" where
  "validator_decision env message diff reference_message =
     (let metrics = (if reference_message \<noteq> []
                     then evaluate_message (nlp env) diff message reference_message
                     else default_metrics);
          hallucination_detected = dict_get metrics ''hallucination_detected'' (PyBool False);
          ungrounded_ratio = dict_get metrics ''ungrounded_ratio'' (PyFloat 0)
      in case assess_hallucination_severity hallucination_detected ungrounded_ratio of
           Inl e \<Rightarrow> Inl e
         | Inr severity \<Rightarrow>
             (case num_of (dict_get metrics ''quality_score'' (PyFloat 0.5)) of
                None \<Rightarrow> Inl TypeError
              | Some quality_score \<Rightarrow>
                  let confidence = get_confidence_level quality_score severity;
                      is_valid = (severity \<in> set [''NONE'', ''LOW'']
                                  \<and> confidence \<in> set [''MEDIUM'', ''HIGH'']
                                  \<and> quality_score \<ge> 0.3);
                      issues = [];
                      issues = (if truthy hallucination_detected
                                then issues @ [HallucinationIssue ungrounded_ratio] else issues);
                      issues = (if quality_score < 0.3
                                then issues @ [LowQualityIssue quality_score] else issues);
                      issues = (if length message < 10 then issues @ [TooShortIssue] else issues);
                      issues = (if length message > 500 then issues @ [TooLongIssue] else issues);
                      feedback = \<lparr> fb_is_valid = is_valid, fb_issues = issues,
                                   fb_suggestions = generate_suggestions issues,
                                   fb_severity = severity, fb_confidence = confidence \<rparr>
                  in Inr \<lparr> out_is_valid = is_valid, out_feedback = feedback,
                           out_metrics = metrics \<rparr>))"

text \<open>\<^verbatim>\<open>ValidatorAgent.execute\<close>\<close>

definition validator_execute ::
  "agent_env \<Rightarrow> governance \<Rightarrow> string \<Rightarrow> string \<Rightarrow> string
     \<Rightarrow> (py_error \<times> governance) + (governance \<times> validator_output)" where
  "validator_execute env gov message diff reference_message =
     (let gov = gov\<lparr> validation_calls := validation_calls gov + 1 \<rparr>
      in if \<not> validate_agent_input env (ValidatorInput message diff reference_message)
         then Inl (ValueError, gov)
         else case validator_decision env message diff reference_message of
           Inl e \<Rightarrow> Inl (e, gov)
         | Inr out \<Rightarrow>
             if \<not> validate_agent_output env (ValidatorOutput out) then Inl (ValueError, gov)
             else
               let decision = \<lparr> agent_name = ''ValidatorAgent'',
                                 action = ''validate_message'',
                                 input_data = [(''message_length'', PyInt (int (length message)))],
                                 output_data = [(''is_valid'', PyBool (out_is_valid out)),
                                    (''issues_count'',
                                       PyInt (int (length (fb_issues (out_feedback out)))))],
                                 decision_reasoning =
                                   ValidatorReasoning (length (fb_issues (out_feedback out)))
                                     (fb_severity (out_feedback out))
                                     (fb_confidence (out_feedback out))
                                     (out_is_valid out) \<rparr>
               in Inr (log_agent_decision gov decision, out))"

subsection \<open>Refiner\<close>

text \<open>
  One pass of the loop of \<^verbatim>\<open>_apply_refinements\<close> over the issues; the state is the pair
  \<open>(refined, changes)\<close>.
\<close>

fun refine_issue :: "string \<Rightarrow> string \<times> change list \<Rightarrow> issue \<Rightarrow> string \<times> change list" where
  "refine_issue diff (refined, changes) TooShortIssue =
     (if length refined < 10 then (''Update code: '' @ refined, changes @ [ExpandedShort])
      else (refined, changes))"
| "refine_issue diff (refined, changes) TooLongIssue =
     (if length refined > 500 then (take 497 refined @ ''...'', changes @ [TruncatedLong])
      else (refined, changes))"
| "refine_issue diff (refined, changes) (HallucinationIssue r) =
     (let diff_words = set (py_split (lower diff));
          message_words = py_split refined;
          common_words = set [''fix'', ''add'', ''remove'', ''update'', ''change'', ''refactor'',
                              ''the'', ''a'', ''to'', ''in'', ''for''];
          filtered_words = filter (\<lambda>w. lower w \<in> diff_words \<or> lower w \<in> common_words)
                             message_words
      in if length filtered_words < length message_words
         then (join_blank filtered_words, changes @ [RemovedUngrounded])
         else (refined, changes))"
| "refine_issue diff (refined, changes) (LowQualityIssue q) = (refined, changes)"

text \<open>\<^verbatim>\<open>_apply_refinements(message, suggestions, issues, diff)\<close>\<close>

definition apply_refinements ::
  "string \<Rightarrow> suggestion list \<Rightarrow> issue list \<Rightarrow> string \<Rightarrow> string \<times> change list" where
  "apply_refinements message suggs iss diff =
     (let (refined, changes) = foldl (refine_issue diff) (message, []) iss;
          changes = (if changes = [] \<and> suggs \<noteq> [] then changes @ [AppliedLLM] else changes)
      in (refined, changes))"

text \<open>\<^verbatim>\<open>RefinerAgent.execute\<close>\<close>

definition refiner_execute ::
  "agent_env \<Rightarrow> governance \<Rightarrow> string \<Rightarrow> feedback \<Rightarrow> string
     \<Rightarrow> (py_error \<times> governance) + (governance \<times> refiner_output)" where
  "refiner_execute env gov message fb diff =
     (if \<not> validate_agent_input env (RefinerInput message fb diff) then Inl (ValueError, gov)
      else
        let (refined, changes, why) =
              (if fb_is_valid fb then (message, [], RefinerUnchanged)
               else let (refined, changes) =
                          apply_refinements message (fb_suggestions fb) (fb_issues fb) diff
                    in (refined, changes, RefinerApplied changes));
            out = \<lparr> refined_message = refined, changes_made = changes \<rparr>
        in if \<not> validate_agent_output env (RefinerOutput out) then Inl (ValueError, gov)
           else
             let decision = \<lparr> agent_name = ''RefinerAgent'',
                               action = ''refine_message'',
                               input_data = [(''original_length'', PyInt (int (length message)))],
                               output_data = [(''refined_length'', PyInt (int (length refined))),
                                              (''changes_count'', PyInt (int (length changes)))],
                               decision_reasoning = why \<rparr>
             in Inr (log_agent_decision gov decision, out))"

subsection \<open>Orchestrator\<close>

text \<open>\<^verbatim>\<open>MultiAgentResult\<close>, with the two entries of the governance summary that depend
  on the run.\<close>

record multi_agent_result =
  final_message :: string
  quality_metrics :: "(string \<times> pyval) list"
  agent_decisions :: "agent_decision list"
  total_iterations :: nat
  agents_involved :: "string list"

text \<open>
  The \<^verbatim>\<open>while iteration < self.max_iterations\<close> loop of
  \<^verbatim>\<open>generate_commit_message_multi_agent\<close>; it returns the governance state, the current
  message and the iteration count at its exit.
\<close>

function agent_loop ::
  "agent_env \<Rightarrow> nat \<Rightarrow> string \<Rightarrow> string \<Rightarrow> governance \<Rightarrow> string \<Rightarrow> nat
     \<Rightarrow> (py_error \<times> governance) + (governance \<times> string \<times> nat)" where
  "agent_loop env max_iterations diff reference_message gov current_message iteration =
     (if iteration < max_iterations then
        (case validator_execute env gov current_message diff reference_message of
           Inl e \<Rightarrow> Inl e
         | Inr (gov, val_result) \<Rightarrow>
             if out_is_valid val_result then Inr (gov, current_message, iteration)
             else
               (case refiner_execute env gov current_message (out_feedback val_result) diff of
                  Inl e \<Rightarrow> Inl e
                | Inr (gov, ref_result) \<Rightarrow>
                    agent_loop env max_iterations diff reference_message gov
                      (refined_message ref_result) (iteration + 1)))
      else Inr (gov, current_message, iteration))"
  by pat_completeness auto
termination
  by (relation "measure (\<lambda>(env, max_iterations, diff, reference_message, gov, current_message,
        iteration). max_iterations - iteration)") auto

declare agent_loop.simps [simp del]

text \<open>
  \<^verbatim>\<open>MultiAgentOrchestrator(max_iterations).generate_commit_message_multi_agent(diff,
  reference_message)\<close> on a new orchestrator, whose audit trail is empty. The result comes
  with the final state of the governance controller.
\<close>

definition generate_commit_message_multi_agent ::
  "agent_env \<Rightarrow> nat \<Rightarrow> string \<Rightarrow> string
     \<Rightarrow> (py_error \<times> governance) + (governance \<times> multi_agent_result)" where
  "generate_commit_message_multi_agent env max_iterations diff reference_message =
     (let gov = \<lparr> audit_trail = [], validation_calls = 0 \<rparr>
      in case generator_execute env gov diff of
           Inl e \<Rightarrow> Inl e
         | Inr (gov, current_message) \<Rightarrow>
             (case agent_loop env max_iterations diff reference_message gov current_message 0 of
                Inl e \<Rightarrow> Inl e
              | Inr (gov, current_message, iteration) \<Rightarrow>
                  (case validator_execute env gov current_message diff reference_message of
                     Inl e \<Rightarrow> Inl e
                   | Inr (gov, final_metrics) \<Rightarrow>
                       Inr (gov,
                            \<lparr> final_message = current_message,
                              quality_metrics = out_metrics final_metrics,
                              agent_decisions = audit_trail gov,
                              total_iterations = iteration + 1,
                              agents_involved =
                                (if iteration > 0
                                 then [''GeneratorAgent'', ''ValidatorAgent'', ''RefinerAgent'']
                                 else [''GeneratorAgent'', ''ValidatorAgent'']) \<rparr>))))"

text \<open>
  An environment for examples. Its \<open>str\<close> of a dictionary is the message and the diff
  in it, joined by a blank; the governance checks search this text for four patterns
  without a blank and compare its length with 10000, and on the examples below the
  outcome is that of Python's \<^verbatim>\<open>str\<close>, which adds the keys and some punctuation.
\<close>

fun example_str_output :: "agent_output \<Rightarrow> string" where
  "example_str_output (GeneratorOutput message) = message"
| "example_str_output (ValidatorOutput out) = []"
| "example_str_output (RefinerOutput out) = refined_message out"

definition example_agent_env :: agent_env where
  "example_agent_env =
     \<lparr> generate = (\<lambda>diff. Some ''Update value of x''),
       nlp = example_nltk,
       str_input = (\<lambda>inp. input_message inp @ '' '' @ input_diff inp),
       str_output = example_str_output \<rparr>"

section \<open>The quality score as the specification words it\<close>

text \<open>
  The semantic-overlap proxy of the specification: the Jaccard similarity of the two sets
  of words that are not stop words, 0 if either set is empty.
\<close>

definition jaccard_spec :: "evaluator_env \<Rightarrow> string \<Rightarrow> string \<Rightarrow> real" where
  "jaccard_spec env candidate reference =
     (let A = set (word_tokenize env (lower candidate)) - stopwords env;
          B = set (word_tokenize env (lower reference)) - stopwords env
      in if A = {} \<or> B = {} then 0 else real (card (A \<inter> B)) / real (card (A \<union> B)))"

text \<open>
  The formula of the specification: BLEU and ROUGE-L normalised from 0--100 to 0--1, the
  weighted sum, and the flat bonus when no hallucination was detected.
\<close>

definition quality_spec :: "real \<Rightarrow> real \<Rightarrow> real \<Rightarrow> bool \<Rightarrow> real" where
  "quality_spec bleu rougeL_score semantic_overlap hallucination_detected =
     0.3 * (bleu / 100) + 0.3 * (rougeL_score / 100) + 0.3 * semantic_overlap
       + (if hallucination_detected then 0 else 0.1)"

section \<open>Input validation as the specification words it\<close>

text \<open>
  The six checks in their order, each with its name in the metadata, whether it fails,
  and the message of its failure. The rate limit check is made on the time stamps that
  are younger than 60 seconds.
\<close>

definition validation_checks ::
  "(sensitive_pattern \<Rightarrow> string \<Rightarrow> bool) \<Rightarrow> rate_limit_store \<Rightarrow> real \<Rightarrow> string \<Rightarrow> string
     \<Rightarrow> (string \<times> bool \<times> message) list" where
  "validation_checks re_search store current_time diff ip =
     [(''rate_limit'',
         length (filter (\<lambda>t. current_time - t < 60) (store ip)) \<ge> RATE_LIMIT_RPM,
         RateLimitExceeded),
      (''empty_check'', strip diff = [], EmptyDiff),
      (''size_limit'', real (length diff) / 1024 > MAX_DIFF_SIZE_KB,
         SizeExceeded (real (length diff) / 1024)),
      (''line_count'', length (split_on newline [] diff) > MAX_DIFF_LINES,
         LineCountExceeded (length (split_on newline [] diff))),
      (''format_validation'',
         \<not> list_ex has_diff_marker (take 20 (split_on newline [] diff)), NotADiff),
      (''sensitive_data'', list_ex (\<lambda>p. re_search p diff) SENSITIVE_PATTERNS, SensitiveData)]"

text \<open>The verdict: the message of the first check that fails, success if none does.\<close>

definition first_failure :: "(string \<times> bool \<times> message) list \<Rightarrow> bool \<times> message" where
  "first_failure checks =
     (case find (\<lambda>(name, failed, msg). failed) checks of
        None \<Rightarrow> (True, ValidationPassed)
      | Some (name, failed, msg) \<Rightarrow> (False, msg))"

text \<open>
  The checks that were run: those up to and including the first that fails. The empty
  check is recorded in the metadata only when it is the one that fails, and a run in
  which every check passes ends with \<open>all_passed\<close>.
\<close>

fun checks_run :: "(string \<times> bool \<times> message) list \<Rightarrow> string list" where
  "checks_run [] = [''all_passed'']"
| "checks_run ((name, failed, msg) # checks) =
     (if failed then [name]
      else if name = ''empty_check'' then checks_run checks
      else name # checks_run checks)"

section \<open>Auxiliary definitions for the proofs\<close>

text \<open>
  The recurrence that the table of \<open>lcs\<close> implements: \<open>lcs_rec xs ys i j\<close> is the length
  of a longest common subsequence of the first \<open>i\<close> elements of \<open>xs\<close> and the first \<open>j\<close>
  elements of \<open>ys\<close>.
\<close>

fun lcs_rec :: "'a list \<Rightarrow> 'a list \<Rightarrow> nat \<Rightarrow> nat \<Rightarrow> nat" where
  "lcs_rec xs ys 0 j = 0"
| "lcs_rec xs ys (Suc i) 0 = 0"
| "lcs_rec xs ys (Suc i) (Suc j) =
     (if xs ! i = ys ! j then lcs_rec xs ys i j + 1
      else max (lcs_rec xs ys i (Suc j)) (lcs_rec xs ys (Suc i) j))"

text \<open>
  The loop invariant of \<open>lcs\<close>: the table has its shape, its first column is zero, and
  the cells of the rows before \<open>i\<close> and of row \<open>i\<close> up to column \<open>j\<close> hold the recurrence.
\<close>

definition lcs_inv :: "'a list \<Rightarrow> 'a list \<Rightarrow> nat list list \<Rightarrow> nat \<Rightarrow> nat \<Rightarrow> bool" where
  "lcs_inv xs ys dp i j \<longleftrightarrow>
     length dp = length xs + 1 \<and>
     (\<forall>r \<le> length xs. length (dp ! r) = length ys + 1) \<and>
     (\<forall>r \<le> length xs. dp ! r ! 0 = 0) \<and>
     (\<forall>r c. r \<le> length xs \<longrightarrow> c \<le> length ys \<longrightarrow> (r < i \<or> (r = i \<and> c \<le> j)) \<longrightarrow>
        dp ! r ! c = lcs_rec xs ys r c)"

text \<open>
  A string is trimmed when \<open>strip\<close> has nothing to remove at either end; \<open>nnn\<close> is a
  run of three newlines.
\<close>

definition trimmed :: "string \<Rightarrow> bool" where
  "trimmed s \<longleftrightarrow> s = [] \<or> (\<not> isspace (hd s) \<and> \<not> isspace (last s))"

definition nnn :: string where
  "nnn = [newline, newline, newline]"

text \<open>
  The message that the generator agent takes from the model service, and the governance
  checks that a run meets while the message is \<open>m\<close>: those of the generator, of the
  validation of \<open>m\<close>, and of the refinement of \<open>m\<close> with the validator's feedback.
\<close>

definition generated_message :: "agent_env \<Rightarrow> string \<Rightarrow> string" where
  "generated_message env diff =
     (case generate env diff of Some m \<Rightarrow> m | None \<Rightarrow> ''Error generating message'')"

definition governance_passes :: "agent_env \<Rightarrow> string \<Rightarrow> string \<Rightarrow> string \<Rightarrow> bool" where
  "governance_passes env diff reference m \<longleftrightarrow>
     validate_agent_input env (GeneratorInput diff)
   \<and> validate_agent_output env (GeneratorOutput m)
   \<and> validate_agent_input env (ValidatorInput m diff reference)
   \<and> (\<forall>v. validator_decision env m diff reference = Inr v \<longrightarrow>
          validate_agent_output env (ValidatorOutput v)
        \<and> validate_agent_input env (RefinerInput m (out_feedback v) diff)
        \<and> validate_agent_output env
            (RefinerOutput \<lparr> refined_message = m,
               changes_made = snd (apply_refinements m (fb_suggestions (out_feedback v))
                                     (fb_issues (out_feedback v)) diff) \<rparr>))"


section \<open>Evaluation of strings\<close>

lemmas string_eval = lower_def lower_char_def char_of_def bit_Suc_0_iff newline_def isalnum_def
  alnum_char_def py_split_def isspace_def

lemmas example_eval = example_nltk_def string_eval

section \<open>Rounding\<close>

lemma round_to_int_of_int: "round_to_int up (of_int m) = m"
  by (simp add: round_to_int_def)

lemma float_round_of_int: "float_round up (of_int k) n = of_int k"
proof -
  have "(of_int k :: real) * 10 ^ n = of_int (k * 10 ^ n)" by simp
  then have "round_to_int up (of_int k * 10 ^ n) = k * 10 ^ n"
    using round_to_int_of_int[of up "k * 10 ^ n"] by simp
  then show ?thesis by (simp add: float_round_def)
qed

lemma float_round_100: "float_round up 100 2 = 100"
  using float_round_of_int[of up 100 2] by simp

lemma float_round_0: "float_round up 0 n = 0"
  using float_round_of_int[of up 0 n] by simp

lemma round_to_int_ge: "of_int m \<le> x \<Longrightarrow> m \<le> round_to_int up x"
proof -
  assume "of_int m \<le> x"
  then have "m \<le> \<lfloor>x\<rfloor>" by (simp add: le_floor_iff)
  then show ?thesis by (auto simp: round_to_int_def Let_def)
qed

lemma round_to_int_le: "x \<le> of_int m \<Longrightarrow> round_to_int up x \<le> m"
proof (cases "x = of_int m")
  case True
  then show ?thesis by (simp add: round_to_int_of_int)
next
  case False
  assume "x \<le> of_int m"
  with False have "x < of_int m" by simp
  then have "\<lfloor>x\<rfloor> < m" by (simp add: floor_less_iff)
  then show ?thesis by (auto simp: round_to_int_def Let_def)
qed

lemma round_to_int_error: "\<bar>of_int (round_to_int up x) - x\<bar> \<le> 1 / 2"
proof -
  have "of_int \<lfloor>x\<rfloor> \<le> x" "x < of_int \<lfloor>x\<rfloor> + 1" by linarith+
  then show ?thesis
    by (auto simp: round_to_int_def Let_def abs_le_iff)
qed

lemma float_round_ge_int: "of_int k \<le> x \<Longrightarrow> of_int k \<le> float_round up x n"
proof -
  assume "of_int k \<le> x"
  then have "of_int (k * 10 ^ n) \<le> x * 10 ^ n" by simp
  then have "k * 10 ^ n \<le> round_to_int up (x * 10 ^ n)" by (rule round_to_int_ge)
  then have "(of_int (k * 10 ^ n) :: real) \<le> of_int (round_to_int up (x * 10 ^ n))"
    by (simp only: of_int_le_iff)
  then show ?thesis by (simp add: float_round_def pos_le_divide_eq)
qed

lemma float_round_le_int: "x \<le> of_int k \<Longrightarrow> float_round up x n \<le> of_int k"
proof -
  assume "x \<le> of_int k"
  then have "x * 10 ^ n \<le> of_int (k * 10 ^ n)" by simp
  then have "round_to_int up (x * 10 ^ n) \<le> k * 10 ^ n" by (rule round_to_int_le)
  then have "(of_int (round_to_int up (x * 10 ^ n)) :: real) \<le> of_int (k * 10 ^ n)"
    by (simp only: of_int_le_iff)
  then show ?thesis by (simp add: float_round_def pos_divide_le_eq)
qed

lemma float_round_nonneg: "0 \<le> x \<Longrightarrow> 0 \<le> float_round up x n"
  using float_round_ge_int[where k=0 and x=x and up=up and n=n] by simp

lemma float_round_le_1: "x \<le> 1 \<Longrightarrow> float_round up x n \<le> 1"
  using float_round_le_int[where k=1 and x=x and up=up and n=n] by simp

lemma float_round_le_100: "x \<le> 100 \<Longrightarrow> float_round up x n \<le> 100"
  using float_round_le_int[where k=100 and x=x and up=up and n=n] by simp

lemma float_round_error: "\<bar>float_round up x n - x\<bar> \<le> 1 / (2 * 10 ^ n)"
proof -
  let ?p = "(10::real) ^ n"
  have p: "?p > 0" by simp
  have "\<bar>float_round up x n - x\<bar> = \<bar>of_int (round_to_int up (x * ?p)) - x * ?p\<bar> / ?p"
    using p by (simp add: float_round_def field_simps abs_divide flip: abs_mult)
  also have "\<dots> \<le> (1 / 2) / ?p"
    using round_to_int_error[of up "x * ?p"] p by (intro divide_right_mono) simp_all
  finally show ?thesis by simp
qed

lemma float_round_multiple: "\<exists>k::int. float_round up x n = of_int k / 10 ^ n"
  unfolding float_round_def by (rule exI) (rule refl)

lemma float_round_no_tie: "\<not> decimal_tie x n \<Longrightarrow> float_round up x n = round_exact x n"
  by (simp add: decimal_tie_def round_exact_def float_round_def round_to_int_def Let_def)

text \<open>
  At a tie the two neighbours differ: 3/160 is 0.01875, which \<open>float_round\<close> takes to
  0.0187 or to 0.0188.
\<close>

lemma float_round_tie_example:
  "decimal_tie (3 / 160) 4 \<and> float_round False (3 / 160) 4 = 0.0187
   \<and> float_round True (3 / 160) 4 = 0.0188"
  by (simp add: decimal_tie_def float_round_def round_to_int_def)

section \<open>Severity and confidence\<close>

text \<open>
  Claim C2. \<open>assess_hallucination_severity\<close>, called with a float rate and a boolean
  flag, always returns a level and never an error: NONE when the flag is false, and
  otherwise LOW below 0.10, MEDIUM below 0.20, HIGH below 0.35 and CRITICAL from 0.35 on.
  With the flag true the level does not decrease when the rate grows, and the rates 0.05,
  0.15, 0.28 and 0.40 give LOW, MEDIUM, HIGH and CRITICAL. This holds for every real rate,
  in particular for those in [0, 1].
\<close>

theorem assess_severity_table:
  fixes rate r1 r2 :: real
  shows "assess_hallucination_severity (PyFloat rate) (PyBool False) = Inr ''NONE''
    \<and> assess_hallucination_severity (PyFloat rate) (PyBool True) =
        Inr (if rate < 0.10 then ''LOW'' else if rate < 0.20 then ''MEDIUM''
             else if rate < 0.35 then ''HIGH'' else ''CRITICAL'')
    \<and> (r1 \<le> r2 \<longrightarrow>
          rank_of (assess_hallucination_severity (PyFloat r1) (PyBool True))
            \<le> rank_of (assess_hallucination_severity (PyFloat r2) (PyBool True)))
    \<and> assess_hallucination_severity (PyFloat 0.05) (PyBool True) = Inr ''LOW''
    \<and> assess_hallucination_severity (PyFloat 0.15) (PyBool True) = Inr ''MEDIUM''
    \<and> assess_hallucination_severity (PyFloat 0.28) (PyBool True) = Inr ''HIGH''
    \<and> assess_hallucination_severity (PyFloat 0.40) (PyBool True) = Inr ''CRITICAL''"
  by (simp add: assess_hallucination_severity_def HALLUCINATION_LOW_THRESHOLD_def
      HALLUCINATION_MEDIUM_THRESHOLD_def HALLUCINATION_HIGH_THRESHOLD_def rank_of_def
      severity_rank_def)

theorem assess_severity_table_witness:
  "(0.05::real) \<le> 0.40 \<and>
   rank_of (assess_hallucination_severity (PyFloat 0.05) (PyBool True)) = 1 \<and>
   rank_of (assess_hallucination_severity (PyFloat 0.40) (PyBool True)) = 4 \<and>
   assess_hallucination_severity (PyFloat 0.15) (PyBool False) = Inr ''NONE''"
  using assess_severity_table [of "0.15" "0.05" "0.40"]
  by (simp add: rank_of_def severity_rank_def)

text \<open>
  Claim C3. \<open>get_confidence_level\<close> returns VERY\_LOW for severity CRITICAL whatever the
  quality score; for HIGH it returns LOW from 0.30 on and VERY\_LOW below; for MEDIUM it
  returns MEDIUM from 0.45 on, LOW from 0.30 on and VERY\_LOW below; for NONE and LOW it
  returns HIGH from 0.50 on, MEDIUM from 0.35 on, LOW from 0.20 on and VERY\_LOW below.
\<close>

theorem confidence_level_table:
  fixes q :: real
  shows "get_confidence_level q ''CRITICAL'' = ''VERY_LOW''
    \<and> get_confidence_level q ''HIGH'' = (if q \<ge> 0.30 then ''LOW'' else ''VERY_LOW'')
    \<and> get_confidence_level q ''MEDIUM'' =
        (if q \<ge> 0.45 then ''MEDIUM'' else if q \<ge> 0.30 then ''LOW'' else ''VERY_LOW'')
    \<and> (sev \<in> {''NONE'', ''LOW''} \<longrightarrow>
        get_confidence_level q sev =
        (if q \<ge> 0.50 then ''HIGH'' else if q \<ge> 0.35 then ''MEDIUM''
         else if q \<ge> 0.20 then ''LOW'' else ''VERY_LOW''))"
  by (auto simp add: get_confidence_level_def)

theorem confidence_level_table_witness:
  "''LOW'' \<in> {''NONE'', ''LOW''} \<and> get_confidence_level 0.40 ''LOW'' = ''MEDIUM''
   \<and> get_confidence_level 0.60 ''CRITICAL'' = ''VERY_LOW''"
  using confidence_level_table [of "0.40" "''LOW''"] confidence_level_table [of "0.60" "''LOW''"]
  by simp

section \<open>Safety warnings\<close>

text \<open>
  Claim C7 as stated fails for severity MEDIUM: with quality score 0.5 the warnings of a
  MEDIUM severity do not contain the "human oversight required" directive.
\<close>

theorem oversight_medium_counterexample:
  "\<not> ((severity_rank ''MEDIUM'' \<ge> severity_rank ''MEDIUM'' \<or> (0.5::real) < 0.25) \<longrightarrow>
       HumanOversightRequired \<in> set (generate_safety_warnings ''MEDIUM'' None 0.5))"
  by (simp add: generate_safety_warnings_def)

text \<open>
  Claim C7, amended. The warnings contain the "human oversight required" directive exactly
  when the severity is HIGH or CRITICAL or the quality score is below 0.25, and the
  "human review recommended" directive exactly otherwise; so one of the two is always
  emitted.
\<close>

theorem safety_warnings_directive:
  fixes q :: real
  shows "(HumanOversightRequired \<in> set (generate_safety_warnings sev toks q)
            \<longleftrightarrow> (sev = ''HIGH'' \<or> sev = ''CRITICAL'' \<or> q < 0.25))
    \<and> (HumanReviewRecommended \<in> set (generate_safety_warnings sev toks q)
            \<longleftrightarrow> \<not> (sev = ''HIGH'' \<or> sev = ''CRITICAL'' \<or> q < 0.25))"
  by (auto simp add: generate_safety_warnings_def Let_def split: option.splits)

theorem safety_warnings_directive_witness:
  "HumanOversightRequired \<in> set (generate_safety_warnings ''CRITICAL'' (Some [''fake_func'', ''invented_var'']) 0.15)
   \<and> HumanReviewRecommended \<in> set (generate_safety_warnings ''LOW'' (Some [''minor'']) 0.55)
   \<and> HumanReviewRecommended \<in> set (generate_safety_warnings ''MEDIUM'' None 0.5)"
  using safety_warnings_directive [of "''CRITICAL''" "Some [''fake_func'', ''invented_var'']" "0.15"]
    safety_warnings_directive [of "''LOW''" "Some [''minor'']" "0.55"]
    safety_warnings_directive [of "''MEDIUM''" None "0.5"]
  by simp

section \<open>Longest common subsequence and ROUGE\<close>

lemma lcs_rec_0 [simp]: "lcs_rec xs ys i 0 = 0"
  by (cases i) simp_all

lemma lcs_inv_init: "lcs_inv xs ys (replicate (length xs + 1) (replicate (length ys + 1) 0)) 0 (length ys)"
  unfolding lcs_inv_def
  by (auto simp del: replicate.simps simp add: nth_replicate)

lemma lcs_inv_cell:
  assumes inv: "lcs_inv xs ys dp i j" and i: "1 \<le> i" "i \<le> length xs" and j: "j < length ys"
  shows "lcs_inv xs ys (lcs_cell xs ys i dp (Suc j)) i (Suc j)"
proof -
  obtain i' where i': "i = Suc i'" using i by (cases i) auto
  have len: "length dp = length xs + 1" and
    rows: "\<And>r. r \<le> length xs \<Longrightarrow> length (dp ! r) = length ys + 1" and
    zero: "\<And>r. r \<le> length xs \<Longrightarrow> dp ! r ! 0 = 0" and
    vals: "\<And>r c. r \<le> length xs \<Longrightarrow> c \<le> length ys \<Longrightarrow> r < i \<or> (r = i \<and> c \<le> j) \<Longrightarrow>
        dp ! r ! c = lcs_rec xs ys r c"
    using inv unfolding lcs_inv_def by auto
  define v where "v = (if xs ! i' = ys ! j then dp ! i' ! j + 1 else max (dp ! i' ! Suc j) (dp ! i ! j))"
  have cell: "lcs_cell xs ys i dp (Suc j) = dp[i := (dp ! i)[Suc j := v]]"
    by (simp add: lcs_cell_def v_def i')
  have a: "dp ! i' ! j = lcs_rec xs ys i' j" using vals[of i' j] i j i' by simp
  have b: "dp ! i' ! Suc j = lcs_rec xs ys i' (Suc j)" using vals[of i' "Suc j"] i j i' by simp
  have c: "dp ! i ! j = lcs_rec xs ys i j" using vals[of i j] i j by simp
  have v: "v = lcs_rec xs ys i (Suc j)"
    unfolding v_def a b c by (simp add: i')
  show ?thesis
    unfolding lcs_inv_def cell
  proof (intro conjI allI impI)
    show "length (dp[i := (dp ! i)[Suc j := v]]) = length xs + 1" using len by simp
  next
    fix r assume "r \<le> length xs"
    then show "length (dp[i := (dp ! i)[Suc j := v]] ! r) = length ys + 1"
      using rows[of r] len by (cases "r = i") simp_all
  next
    fix r assume "r \<le> length xs"
    then show "dp[i := (dp ! i)[Suc j := v]] ! r ! 0 = 0"
      using zero[of r] len by (cases "r = i") simp_all
  next
    fix r c assume r: "r \<le> length xs" and c: "c \<le> length ys"
      and pos: "r < i \<or> r = i \<and> c \<le> Suc j"
    show "dp[i := (dp ! i)[Suc j := v]] ! r ! c = lcs_rec xs ys r c"
    proof (cases "r = i")
      case False
      then show ?thesis using vals[of r c] r c pos len by simp
    next
      case True
      show ?thesis
      proof (cases "c = Suc j")
        case True
        then show ?thesis using \<open>r = i\<close> v len rows[of i] i j by simp
      next
        case False
        then show ?thesis using \<open>r = i\<close> vals[of i c] r c pos len by simp
      qed
    qed
  qed
qed

lemma lcs_inv_cells:
  assumes inv: "lcs_inv xs ys dp i 0" and i: "1 \<le> i" "i \<le> length xs"
  shows "k \<le> length ys \<Longrightarrow> lcs_inv xs ys (foldl (lcs_cell xs ys i) dp [1 ..< k + 1]) i k"
proof (induction k)
  case 0
  then show ?case using inv by simp
next
  case (Suc k)
  then have "lcs_inv xs ys (foldl (lcs_cell xs ys i) dp [1 ..< k + 1]) i k" by simp
  from lcs_inv_cell[OF this i] Suc.prems show ?case by simp
qed

lemma lcs_inv_next_row:
  assumes "lcs_inv xs ys dp i (length ys)"
  shows "lcs_inv xs ys dp (Suc i) 0"
  using assms unfolding lcs_inv_def
  by (auto simp: less_Suc_eq)

lemma lcs_inv_row:
  assumes "lcs_inv xs ys dp i (length ys)" and "i < length xs"
  shows "lcs_inv xs ys (lcs_row xs ys dp (Suc i)) (Suc i) (length ys)"
  unfolding lcs_row_def
  using lcs_inv_cells[OF lcs_inv_next_row[OF assms(1)], of "length ys"] assms(2)
  by simp

lemma lcs_inv_rows:
  "k \<le> length xs \<Longrightarrow>
   lcs_inv xs ys (foldl (lcs_row xs ys) (replicate (length xs + 1) (replicate (length ys + 1) 0)) [1 ..< k + 1])
     k (length ys)"
proof (induction k)
  case 0
  then show ?case using lcs_inv_init by simp
next
  case (Suc k)
  then have "lcs_inv xs ys (foldl (lcs_row xs ys) (replicate (length xs + 1) (replicate (length ys + 1) 0)) [1 ..< k + 1])
     k (length ys)" by simp
  from lcs_inv_row[OF this] Suc.prems show ?case by simp
qed

lemma lcs_eq_rec: "lcs xs ys = lcs_rec xs ys (length xs) (length ys)"
proof -
  let ?dp = "foldl (lcs_row xs ys) (replicate (length xs + 1) (replicate (length ys + 1) 0))
               [1 ..< length xs + 1]"
  have "lcs_inv xs ys ?dp (length xs) (length ys)"
    using lcs_inv_rows[of "length xs" xs ys] by simp
  then have "?dp ! length xs ! length ys = lcs_rec xs ys (length xs) (length ys)"
    unfolding lcs_inv_def by blast
  then show ?thesis
    unfolding lcs_def Let_def .
qed

lemma lcs_rec_le: "lcs_rec xs ys i j \<le> min i j"
  by (induction xs ys i j rule: lcs_rec.induct) auto

lemma lcs_rec_diag: "lcs_rec xs xs k k = k"
proof (induction k)
  case 0
  then show ?case by simp
next
  case (Suc k)
  then show ?case by simp
qed

lemma lcs_self: "lcs xs xs = length xs"
  by (simp add: lcs_eq_rec lcs_rec_diag)

lemma size_get_ngrams: "size (get_ngrams tokens n) = length tokens + 1 - n"
  by (simp add: get_ngrams_def ngram_list_def)

lemma get_ngrams_empty_iff: "get_ngrams tokens n = {#} \<longleftrightarrow> length tokens < n"
  using size_get_ngrams[of tokens n] size_eq_0_iff_empty[of "get_ngrams tokens n"] by auto

lemma rouge_n_self: "rouge_n xs xs n = (if n \<le> length xs then 1 else 0)"
  by (auto simp: rouge_n_def size_get_ngrams get_ngrams_empty_iff Let_def)

lemma rouge_l_self: "xs \<noteq> [] \<Longrightarrow> rouge_l xs xs = 1"
  by (simp add: rouge_l_def lcs_self)

text \<open>
  Claim C6 as stated fails for a sequence of one token: it has no bigram, and
  \<open>rouge_n\<close> returns 0 when the reference has no n-gram.
\<close>

theorem rouge_single_token_counterexample:
  "\<not> (word_tokenize example_nltk (lower ''fix'') = word_tokenize example_nltk (lower ''fix'')
        \<and> word_tokenize example_nltk (lower ''fix'') \<noteq> []
      \<longrightarrow> rouge2 (compute_rouge example_nltk ''fix'' ''fix'') = 100)"
  by (simp add: compute_rouge_def rouge_of_tokens_def example_eval
      rouge_n_def size_get_ngrams float_round_0 Let_def)

text \<open>
  Claim C6, amended. When the candidate and the reference have the same, non-empty token
  sequence, \<open>rouge1\<close> and \<open>rougeL\<close> are 100; \<open>rouge2\<close> is 100 when the sequence has at
  least two tokens and 0 when it has one.
\<close>

theorem rouge_self_match:
  assumes "word_tokenize env (lower generated) = word_tokenize env (lower reference)"
    and "word_tokenize env (lower reference) \<noteq> []"
  shows "rouge1 (compute_rouge env generated reference) = 100
       \<and> rougeL (compute_rouge env generated reference) = 100
       \<and> rouge2 (compute_rouge env generated reference) =
           (if length (word_tokenize env (lower reference)) \<ge> 2 then 100 else 0)"
proof -
  let ?t = "word_tokenize env (lower reference)"
  have "1 \<le> length ?t" using assms(2) by (cases ?t) auto
  then show ?thesis
    using assms
    by (simp add: compute_rouge_def rouge_of_tokens_def Let_def rouge_n_self rouge_l_self
        float_round_100 float_round_0)
qed

theorem rouge_self_match_witness:
  "word_tokenize example_nltk (lower ''Fix parser bug'') = word_tokenize example_nltk (lower ''fix parser bug'')
   \<and> word_tokenize example_nltk (lower ''fix parser bug'') \<noteq> []
   \<and> rouge1 (compute_rouge example_nltk ''Fix parser bug'' ''fix parser bug'') = 100
   \<and> rougeL (compute_rouge example_nltk ''Fix parser bug'' ''fix parser bug'') = 100
   \<and> rouge2 (compute_rouge example_nltk ''Fix parser bug'' ''fix parser bug'') = 100"
proof -
  have a: "word_tokenize example_nltk (lower ''Fix parser bug'')
         = word_tokenize example_nltk (lower ''fix parser bug'')"
    by (simp add: example_eval)
  have b: "word_tokenize example_nltk (lower ''fix parser bug'') = [''fix'', ''parser'', ''bug'']"
    by (simp add: example_eval)
  have c: "word_tokenize example_nltk (lower ''fix parser bug'') \<noteq> []"
    by (simp add: b)
  show ?thesis
    using rouge_self_match [OF a c] a c by (simp add: b)
qed

section \<open>Hallucination report\<close>

lemma check_token_fold:
  "foldl (check_token dts) (u, n) toks = (u', n') \<Longrightarrow> length u \<le> n \<Longrightarrow> length u' \<le> n'"
proof (induction toks arbitrary: u n)
  case Nil
  then show ?case by simp
next
  case (Cons t toks)
  obtain u1 n1 where s: "check_token dts (u, n) t = (u1, n1)" by (cases "check_token dts (u, n) t")
  have "length u1 \<le> n1" using s Cons.prems(2)
    by (auto simp: check_token_def Let_def split: if_splits)
  then show ?case using Cons.IH[of u1 n1] Cons.prems(1) s by simp
qed

lemma detect_example:
  "detect_hallucination_with thr example_nltk ''alpha beta gamma'' ''+alpha beta'' =
     \<lparr> detected = (1 / 3 > thr), hallucination_rate = 0.3333,
       ungrounded_tokens = [''gamma''], total_tokens_checked = 3 \<rparr>"
  by (simp add: detect_hallucination_with_def extract_meaningful_tokens_def example_eval
      extract_diff_tokens_def check_token_def allowed_technical_terms_def
      float_round_def round_to_int_def Let_def)

text \<open>
  Claim C1 as stated fails because the report carries the rate rounded to four digits:
  with one ungrounded token out of three checked the rate field is 0.3333, not 1/3. The
  ratio 1/3 is no tie, so this is the rate of the program too.
\<close>

theorem hallucination_rate_counterexample:
  "\<not> (total_tokens_checked (detect_hallucination example_nltk ''alpha beta gamma'' ''+alpha beta'') > 0
      \<longrightarrow> hallucination_rate (detect_hallucination example_nltk ''alpha beta gamma'' ''+alpha beta'')
          = real (length (ungrounded_tokens (detect_hallucination example_nltk ''alpha beta gamma'' ''+alpha beta'')))
            / real (total_tokens_checked (detect_hallucination example_nltk ''alpha beta gamma'' ''+alpha beta'')))"
  by (simp add: detect_hallucination_def detect_example)

text \<open>
  Claim C1, amended. For every message and diff, and for both thresholds in use (0.10 and
  0.15): when no token was checked the rate field is 0, no token is ungrounded and
  \<open>detected\<close> is false; when some token was checked the rate field is a multiple of
  0.0001 within 0.00005 of the ratio of ungrounded to checked tokens, which is the ratio
  rounded to four digits unless the ratio is a tie between two multiples; the ratio and
  the field lie in [0, 1], and \<open>detected\<close> says that the ratio itself, not the rounded
  field, exceeds the threshold.
\<close>

theorem detect_hallucination_report:
  fixes thr :: real
  assumes "thr \<in> {0.10, 0.15}"
  shows "(let r = detect_hallucination_with thr env message diff;
              ratio = real (length (ungrounded_tokens r)) / real (total_tokens_checked r)
          in (total_tokens_checked r = 0 \<longrightarrow>
                hallucination_rate r = 0 \<and> ungrounded_tokens r = [] \<and> \<not> detected r)
           \<and> (total_tokens_checked r > 0 \<longrightarrow>
                \<bar>hallucination_rate r - ratio\<bar> \<le> 0.00005
              \<and> (\<exists>k::int. hallucination_rate r = of_int k / 10 ^ 4)
              \<and> (\<not> decimal_tie ratio 4 \<longrightarrow> hallucination_rate r = round_exact ratio 4)
              \<and> 0 \<le> ratio \<and> ratio \<le> 1
              \<and> 0 \<le> hallucination_rate r \<and> hallucination_rate r \<le> 1
              \<and> detected r = (ratio > thr)))"
proof -
  obtain u n where f: "foldl (check_token (extract_diff_tokens env diff)) ([], 0)
      (extract_meaningful_tokens env message) = (u, n)"
    by (cases "foldl (check_token (extract_diff_tokens env diff)) ([], 0)
      (extract_meaningful_tokens env message)")
  define x where "x = (if n = 0 then 0 else real (length u) / real n)"
  define up where "up = tie_up env (Quotient x)"
  have le: "length u \<le> n" using check_token_fold[OF f] by simp
  have r: "detect_hallucination_with thr env message diff =
         \<lparr> detected = x > thr, hallucination_rate = float_round up x 4,
           ungrounded_tokens = u, total_tokens_checked = n \<rparr>"
    unfolding detect_hallucination_with_def Let_def f x_def up_def by simp
  have t: "\<not> 0 > thr" using assms by auto
  show ?thesis
  proof (cases "n = 0")
    case True
    then have "x = 0" "u = []" using le by (simp_all add: x_def)
    then show ?thesis using True t by (simp add: r Let_def float_round_0)
  next
    case False
    then have x: "x = real (length u) / real n" by (simp add: x_def)
    have b: "0 \<le> x" "x \<le> 1" using le False by (simp_all add: x divide_le_eq)
    have e: "\<bar>float_round up x 4 - x\<bar> \<le> 0.00005"
      using float_round_error[of up x 4] by simp
    have m: "\<exists>k::int. float_round up x 4 = of_int k / 10 ^ 4" by (rule float_round_multiple)
    have nt: "\<not> decimal_tie x 4 \<longrightarrow> float_round up x 4 = round_exact x 4"
      using float_round_no_tie by blast
    have fb: "0 \<le> float_round up x 4" "float_round up x 4 \<le> 1"
      using b by (simp_all add: float_round_nonneg float_round_le_1)
    show ?thesis
      using False e m nt b fb le unfolding r Let_def by (simp add: x)
  qed
qed

theorem detect_hallucination_report_witness:
  "(0.10::real) \<in> {0.10, 0.15}
   \<and> detect_hallucination example_nltk ''alpha beta gamma'' ''+alpha beta'' =
      detect_hallucination_with 0.10 example_nltk ''alpha beta gamma'' ''+alpha beta''
   \<and> total_tokens_checked (detect_hallucination example_nltk ''alpha beta gamma'' ''+alpha beta'') = 3
   \<and> \<not> decimal_tie (1 / 3) 4
   \<and> hallucination_rate (detect_hallucination example_nltk ''alpha beta gamma'' ''+alpha beta'')
       = round_exact (1 / 3) 4
   \<and> detected (detect_hallucination example_nltk ''alpha beta gamma'' ''+alpha beta'')"
proof -
  have h: "(0.10::real) \<in> {0.10, 0.15}" by simp
  have n: "\<not> decimal_tie (1 / 3) 4" by (simp add: decimal_tie_def)
  show ?thesis
    using detect_hallucination_report [OF h, of example_nltk "''alpha beta gamma''" "''+alpha beta''"] n
    by (simp add: detect_hallucination_def detect_example Let_def)
qed

section \<open>Quality score\<close>

lemma bleu_precision_bounds: "0 \<le> bleu_precision g r n \<and> bleu_precision g r n \<le> 1"
proof -
  have "size (get_ngrams g n \<inter># get_ngrams r n) \<le> size (get_ngrams g n)"
    by (rule size_mset_mono) simp
  then show ?thesis
    by (auto simp: bleu_precision_def Let_def divide_le_eq)
qed

lemma geo_mean_le_1:
  assumes "\<forall>p \<in> set ps. 0 < p \<and> p \<le> (1::real)"
  shows "exp (sum_list (map ln ps) / 4) \<le> 1"
proof -
  have "sum_list (map ln ps) \<le> 0"
    using assms by (induction ps) (auto intro: add_nonpos_nonpos)
  then show ?thesis by simp
qed

lemma bleu_of_tokens_bounds:
  "0 \<le> bleu_of_tokens tie g r \<and> bleu_of_tokens tie g r \<le> 100"
proof (cases "length g = 0")
  case True
  then show ?thesis by (simp add: bleu_of_tokens_def)
next
  case False
  define ps where "ps = map (bleu_precision g r) [1 ..< 5]"
  define geo where "geo = (if list_all (\<lambda>p. p > 0) ps then exp (sum_list (map ln ps) / 4) else 0)"
  define bp where "bp = (if length g \<ge> length r then 1
                     else exp (1 - real (length r) / real (length g)))"
  define up where "up = tie (BleuScore ps (length g) (length r))"
  have geo: "0 \<le> geo" "geo \<le> 1"
  proof -
    show "0 \<le> geo" by (simp add: geo_def)
    have "\<forall>p \<in> set ps. p \<le> 1" using bleu_precision_bounds by (auto simp: ps_def)
    then have "list_all (\<lambda>p. p > 0) ps \<Longrightarrow> \<forall>p \<in> set ps. 0 < p \<and> p \<le> 1"
      by (auto simp: list_all_iff)
    then show "geo \<le> 1" using geo_mean_le_1[of ps] by (auto simp: geo_def)
  qed
  have bp: "0 \<le> bp" "bp \<le> 1"
  proof -
    show "0 \<le> bp" by (simp add: bp_def)
    have "length g < length r \<Longrightarrow> 1 - real (length r) / real (length g) \<le> 0"
      using False by (simp add: field_simps)
    then show "bp \<le> 1" by (auto simp: bp_def)
  qed
  have "0 \<le> bp * geo" using geo bp by simp
  moreover have "bp * geo \<le> 1" using geo bp by (simp add: mult_le_one)
  ultimately have "0 \<le> bp * geo * 100" "bp * geo * 100 \<le> 100" by simp_all
  then have "0 \<le> float_round up (bp * geo * 100) 2 \<and> float_round up (bp * geo * 100) 2 \<le> 100"
    using float_round_nonneg float_round_le_100 by blast
  moreover have "bleu_of_tokens tie g r = float_round up (bp * geo * 100) 2"
    using False by (simp add: bleu_of_tokens_def Let_def ps_def geo_def bp_def up_def)
  ultimately show ?thesis by simp
qed

lemma lcs_le: "lcs xs ys \<le> length ys"
  using lcs_rec_le[of xs ys "length xs" "length ys"] by (simp add: lcs_eq_rec)

lemma rouge_l_bounds: "0 \<le> rouge_l g r \<and> rouge_l g r \<le> 1"
  using lcs_le[of g r] by (auto simp: rouge_l_def Let_def divide_le_eq)

lemma rougeL_bounds:
  "0 \<le> rougeL (rouge_of_tokens tie g r) \<and> rougeL (rouge_of_tokens tie g r) \<le> 100"
  using rouge_l_bounds[of g r]
  by (simp add: rouge_of_tokens_def Let_def float_round_nonneg float_round_le_100)

lemma word_overlap_eq:
  "compute_word_overlap env g r =
     float_round (tie_up env (Quotient (jaccard_spec env g r))) (jaccard_spec env g r) 4"
proof -
  let ?A = "set (word_tokenize env (lower g)) - stopwords env"
  let ?B = "set (word_tokenize env (lower r)) - stopwords env"
  have fin: "finite ?A" "finite ?B" by simp_all
  then have c: "card ?A = 0 \<longleftrightarrow> ?A = {}" "card ?B = 0 \<longleftrightarrow> ?B = {}" by auto
  have u: "?A \<noteq> {} \<Longrightarrow> card (?A \<union> ?B) > 0" using fin by (simp add: card_gt_0_iff)
  show ?thesis
    unfolding compute_word_overlap_def jaccard_spec_def Let_def c
    using u by (auto simp: float_round_0)
qed

lemma jaccard_bounds: "0 \<le> jaccard_spec env g r \<and> jaccard_spec env g r \<le> 1"
proof -
  let ?A = "set (word_tokenize env (lower g)) - stopwords env"
  let ?B = "set (word_tokenize env (lower r)) - stopwords env"
  have "card (?A \<inter> ?B) \<le> card (?A \<union> ?B)"
    by (rule card_mono) auto
  then show ?thesis
    by (auto simp: jaccard_spec_def Let_def divide_le_eq)
qed

lemma word_overlap_bounds:
  "0 \<le> compute_word_overlap env g r \<and> compute_word_overlap env g r \<le> 1"
  using jaccard_bounds[of env g r]
  by (simp add: word_overlap_eq float_round_nonneg float_round_le_1)

lemma quality_eq_spec:
  "compute_quality_score env b rl s d =
     float_round (tie_up env (QualityScore b rl s d)) (quality_spec b rl s d) 4"
  by (simp add: compute_quality_score_def quality_spec_def Let_def)

lemma quality_spec_bounds:
  assumes "0 \<le> b" "b \<le> 100" "0 \<le> rl" "rl \<le> 100" "0 \<le> s" "s \<le> 1"
  shows "0 \<le> quality_spec b rl s d \<and> quality_spec b rl s d \<le> 1"
  using assms by (auto simp: quality_spec_def)

lemma example_tie: "tie_up example_nltk e = False"
  by (simp add: example_nltk_def)

lemma float_round_numeral: "float_round up (numeral w) n = numeral w"
  using float_round_of_int[of up "numeral w" n] by simp

lemma ex_tok_g: "word_tokenize example_nltk (lower ''alpha beta gamma delta'') = [''alpha'', ''beta'', ''gamma'', ''delta'']"
  by (simp add: example_eval)

lemma ex_tok_r: "word_tokenize example_nltk (lower ''alpha epsilon zeta eta'') = [''alpha'', ''epsilon'', ''zeta'', ''eta'']"
  by (simp add: example_eval)

lemma ex_bleu: "compute_bleu example_nltk ''alpha beta gamma delta'' ''alpha epsilon zeta eta'' = 0"
  unfolding compute_bleu_def Let_def ex_tok_g ex_tok_r
  by (simp add: bleu_of_tokens_def bleu_precision_def get_ngrams_def ngram_list_def Let_def upt_rec float_round_0)

lemma ex_lcs: "lcs [''alpha'', ''beta'', ''gamma'', ''delta''] [''alpha'', ''epsilon'', ''zeta'', ''eta''] = 1"
  by (simp add: lcs_eq_rec eval_nat_numeral)

lemma ex_rougeL: "rougeL (compute_rouge example_nltk ''alpha beta gamma delta'' ''alpha epsilon zeta eta'') = 25"
  unfolding compute_rouge_def Let_def ex_tok_g ex_tok_r
  by (simp add: rouge_of_tokens_def rouge_l_def ex_lcs float_round_numeral Let_def)

lemma ex_jaccard: "jaccard_spec example_nltk ''alpha beta gamma delta'' ''alpha epsilon zeta eta'' = 1 / 7"
  unfolding jaccard_spec_def Let_def ex_tok_g ex_tok_r
  by (simp add: example_nltk_def card_insert_if)

lemma ex_detect: "detected (detect_hallucination example_nltk ''alpha beta gamma delta'' ''alpha'')"
  by (simp add: detect_hallucination_def detect_hallucination_with_def extract_meaningful_tokens_def example_eval
      extract_diff_tokens_def check_token_def allowed_technical_terms_def Let_def)

lemma ex_round: "float_round False (1 / 7) 4 = 0.1429"
  by (simp add: float_round_def round_to_int_def)

lemma ex_overlap: "compute_word_overlap example_nltk ''alpha beta gamma delta'' ''alpha epsilon zeta eta'' = 0.1429"
  by (simp add: word_overlap_eq ex_jaccard ex_round example_tie)

lemma ex_evaluate:
  "map_of (evaluate_message example_nltk ''alpha beta gamma delta'' ''alpha epsilon zeta eta'' ''alpha'')
     ''quality_score'' = Some (PyFloat 0.1179)"
  using ex_detect
  by (simp add: evaluate_message_def Let_def ex_bleu ex_rougeL ex_overlap
      compute_quality_score_def example_tie float_round_def round_to_int_def)

text \<open>
  Claim C8 as stated fails because both the word overlap and the quality score are
  rounded to four digits: for a candidate and a reference of four words each that share
  one word the overlap is 1/7, and the quality score is 0.1179, not 0.075 + 0.3/7.
  Neither 1/7 nor 0.075 + 0.3 * 0.1429 is a tie, so these are the values of the program.
\<close>

theorem quality_score_counterexample:
  "\<not> (map_of (evaluate_message example_nltk ''alpha beta gamma delta'' ''alpha epsilon zeta eta'' ''alpha'')
         ''quality_score'' =
        Some (PyFloat (quality_spec
          (compute_bleu example_nltk ''alpha beta gamma delta'' ''alpha epsilon zeta eta'')
          (rougeL (compute_rouge example_nltk ''alpha beta gamma delta'' ''alpha epsilon zeta eta''))
          (jaccard_spec example_nltk ''alpha beta gamma delta'' ''alpha epsilon zeta eta'')
          (detected (detect_hallucination example_nltk ''alpha beta gamma delta'' ''alpha'')))))"
  using ex_detect
  by (simp add: ex_evaluate ex_bleu ex_rougeL ex_jaccard quality_spec_def)

text \<open>
  Claim C8, amended. The result of \<open>evaluate_message\<close> carries as semantic similarity a
  multiple of 0.0001 within 0.00005 of the Jaccard similarity of the specification, and
  as quality score a multiple of 0.0001 within 0.00005 of the formula of the
  specification, applied to the reported BLEU, ROUGE-L, semantic similarity and detection
  flag. Each is the value rounded to four digits unless that value is a tie between two
  multiples. The quality score lies in [0, 1], so also in [0, 1.1].
\<close>

theorem quality_score_formula:
  "\<exists>b rg s h q.
      evaluate_message env generated reference diff =
        [(''bleu'', PyFloat b), (''rouge'', PyDict (rouge_dict rg)),
         (''semantic_similarity'', PyFloat s),
         (''hallucination'', PyDict (hallucination_dict h)),
         (''quality_score'', PyFloat q)]
    \<and> \<bar>s - jaccard_spec env generated reference\<bar> \<le> 0.00005
    \<and> (\<exists>k::int. s = of_int k / 10 ^ 4)
    \<and> (\<not> decimal_tie (jaccard_spec env generated reference) 4 \<longrightarrow>
          s = round_exact (jaccard_spec env generated reference) 4)
    \<and> \<bar>q - quality_spec b (rougeL rg) s (detected h)\<bar> \<le> 0.00005
    \<and> (\<exists>k::int. q = of_int k / 10 ^ 4)
    \<and> (\<not> decimal_tie (quality_spec b (rougeL rg) s (detected h)) 4 \<longrightarrow>
          q = round_exact (quality_spec b (rougeL rg) s (detected h)) 4)
    \<and> 0 \<le> q \<and> q \<le> 1 \<and> q \<le> 1.1"
proof -
  let ?b = "compute_bleu env generated reference"
  let ?rg = "compute_rouge env generated reference"
  let ?s = "compute_word_overlap env generated reference"
  let ?h = "detect_hallucination env generated diff"
  let ?q = "compute_quality_score env ?b (rougeL ?rg) ?s (detected ?h)"
  let ?J = "jaccard_spec env generated reference"
  let ?Q = "quality_spec ?b (rougeL ?rg) ?s (detected ?h)"
  have b: "0 \<le> ?b \<and> ?b \<le> 100"
    unfolding compute_bleu_def Let_def by (rule bleu_of_tokens_bounds)
  have rl: "0 \<le> rougeL ?rg \<and> rougeL ?rg \<le> 100"
    unfolding compute_rouge_def Let_def by (rule rougeL_bounds)
  have s: "0 \<le> ?s \<and> ?s \<le> 1" by (rule word_overlap_bounds)
  have qs: "0 \<le> ?Q \<and> ?Q \<le> 1"
    using b rl s by (intro quality_spec_bounds) auto
  have q: "0 \<le> ?q \<and> ?q \<le> 1"
    using qs by (simp add: quality_eq_spec float_round_nonneg float_round_le_1)
  have e1: "\<bar>?s - ?J\<bar> \<le> 0.00005"
    using float_round_error[of "tie_up env (Quotient ?J)" ?J 4] by (simp add: word_overlap_eq)
  have m1: "\<exists>k::int. ?s = of_int k / 10 ^ 4"
    unfolding word_overlap_eq by (rule float_round_multiple)
  have n1: "\<not> decimal_tie ?J 4 \<longrightarrow> ?s = round_exact ?J 4"
    unfolding word_overlap_eq using float_round_no_tie by blast
  have e2: "\<bar>?q - ?Q\<bar> \<le> 0.00005"
    using float_round_error[of "tie_up env (QualityScore ?b (rougeL ?rg) ?s (detected ?h))" ?Q 4]
    by (simp add: quality_eq_spec)
  have m2: "\<exists>k::int. ?q = of_int k / 10 ^ 4"
    unfolding quality_eq_spec by (rule float_round_multiple)
  have n2: "\<not> decimal_tie ?Q 4 \<longrightarrow> ?q = round_exact ?Q 4"
    unfolding quality_eq_spec using float_round_no_tie by blast
  have ev: "evaluate_message env generated reference diff =
        [(''bleu'', PyFloat ?b), (''rouge'', PyDict (rouge_dict ?rg)),
         (''semantic_similarity'', PyFloat ?s),
         (''hallucination'', PyDict (hallucination_dict ?h)),
         (''quality_score'', PyFloat ?q)]"
    by (simp add: evaluate_message_def Let_def)
  have q11: "?q \<le> 1.1" using q by simp
  show ?thesis
    apply (rule exI[of _ ?b], rule exI[of _ ?rg], rule exI[of _ ?s], rule exI[of _ ?h],
        rule exI[of _ ?q])
    using ev e1 m1 n1 e2 m2 n2 q q11 by blast
qed

theorem quality_score_formula_witness:
  "\<not> decimal_tie (1 / 7) 4 \<and> \<not> decimal_tie (quality_spec 0 25 0.1429 True) 4
   \<and> (\<exists>q. map_of (evaluate_message example_nltk ''alpha beta gamma delta''
                    ''alpha epsilon zeta eta'' ''alpha'')
              ''quality_score'' = Some (PyFloat q)
          \<and> q = 0.1179 \<and> 0 \<le> q \<and> q \<le> 1.1
          \<and> \<bar>q - quality_spec 0 25 0.1429 True\<bar> \<le> 0.00005)"
proof -
  obtain b rg s h q where
    ev: "evaluate_message example_nltk ''alpha beta gamma delta'' ''alpha epsilon zeta eta'' ''alpha'' =
        [(''bleu'', PyFloat b), (''rouge'', PyDict (rouge_dict rg)),
         (''semantic_similarity'', PyFloat s),
         (''hallucination'', PyDict (hallucination_dict h)),
         (''quality_score'', PyFloat q)]"
    and q: "0 \<le> q" "q \<le> 1.1"
    using quality_score_formula [of example_nltk "''alpha beta gamma delta''"
        "''alpha epsilon zeta eta''" "''alpha''"]
    by blast
  have t: "\<not> decimal_tie (1 / 7) 4" "\<not> decimal_tie (quality_spec 0 25 0.1429 True) 4"
    by (simp_all add: decimal_tie_def quality_spec_def)
  have "map_of (evaluate_message example_nltk ''alpha beta gamma delta'' ''alpha epsilon zeta eta'' ''alpha'')
         ''quality_score'' = Some (PyFloat q)"
    by (simp add: ev)
  moreover from this have "q = 0.1179" by (simp add: ex_evaluate)
  moreover from this have "\<bar>q - quality_spec 0 25 0.1429 True\<bar> \<le> 0.00005"
    by (simp add: quality_spec_def)
  ultimately show ?thesis using q t by blast
qed

section \<open>Output sanitation\<close>

lemma isspace_newline [simp]: "isspace newline"
  by (simp add: isspace_def newline_def)

lemma strip_trimmed: "trimmed (strip s)"
proof -
  let ?a = "dropWhile isspace s"
  let ?b = "dropWhile isspace (rev ?a)"
  show ?thesis
  proof (cases "?b = []")
    case True
    then show ?thesis by (simp only: strip_def trimmed_def rev.simps simp_thms)
  next
    case False
    have hb: "\<not> isspace (hd ?b)" using hd_dropWhile[of isspace "rev ?a"] False by blast
    have "last (rev ?b) = hd ?b" using False by (simp only: last_rev)
    then have l: "\<not> isspace (last (rev ?b))" using hb by simp
    have a: "?a \<noteq> []"
    proof
      assume e: "?a = []"
      have "?b = []" by (simp only: e rev.simps dropWhile.simps)
      with False show False by blast
    qed
    have ha: "\<not> isspace (hd ?a)" using hd_dropWhile[of isspace s] a by blast
    have "rev ?a = takeWhile isspace (rev ?a) @ ?b" by simp
    then have "rev (rev ?a) = rev (takeWhile isspace (rev ?a) @ ?b)" by (rule arg_cong)
    then have "?a = rev ?b @ rev (takeWhile isspace (rev ?a))"
      by (simp only: rev_rev_ident rev_append)
    moreover have "rev ?b \<noteq> []" using False by (simp only: rev_is_Nil_conv not_False_eq_True)
    ultimately have "hd ?a = hd (rev ?b)" using hd_append2[of "rev ?b" "rev (takeWhile isspace (rev ?a))"]
      by simp
    then have "\<not> isspace (hd (rev ?b))" using ha by simp
    then show ?thesis using l unfolding strip_def trimmed_def by blast
  qed
qed

lemma trimmed_strip: "trimmed s \<Longrightarrow> strip s = s"
proof (cases s)
  case Nil
  then show ?thesis by (simp add: strip_def)
next
  case (Cons c cs)
  assume "trimmed s"
  then have h: "\<not> isspace (hd s)" and l: "\<not> isspace (last s)"
    using Cons by (auto simp: trimmed_def)
  have 1: "dropWhile isspace s = s" using h Cons by simp
  obtain x xs where r: "rev s = x # xs" using Cons by (cases "rev s") auto
  have "hd (rev s) = last s" using Cons by (simp add: hd_rev)
  then have "\<not> isspace x" using l r by simp
  then have 2: "dropWhile isspace (rev s) = rev s"
    by (simp add: r)
  show ?thesis by (simp add: strip_def 1 2)
qed

lemma replace_trimmed:
  assumes "trimmed s" "\<not> isspace new"
  shows "trimmed (replace_char old new s)"
proof (cases "s = []")
  case True
  then show ?thesis by (simp add: replace_char_def trimmed_def)
next
  case False
  then have "hd (replace_char old new s) = (if hd s = old then new else hd s)"
    and "last (replace_char old new s) = (if last s = old then new else last s)"
    by (simp_all add: replace_char_def hd_map last_map)
  then show ?thesis using assms False by (auto simp: trimmed_def replace_char_def)
qed

lemma replace_removes: "old \<noteq> new \<Longrightarrow> old \<notin> set (replace_char old new s)"
  by (auto simp: replace_char_def)

lemma replace_id: "old \<notin> set s \<Longrightarrow> replace_char old new s = s"
  by (induction s) (auto simp: replace_char_def)

lemma set_collapse: "set (collapse_newlines s) \<subseteq> set s"
proof (induction s rule: collapse_newlines.induct)
  case 1
  then show ?case by simp
next
  case (2 c cs)
  show ?case
  proof (cases "c = newline")
    case True
    have "set (collapse_newlines (dropWhile (\<lambda>x. x = newline) cs)) \<subseteq> set cs"
      using 2(1)[OF True refl refl] set_dropWhileD by fastforce
    moreover have "set (takeWhile (\<lambda>x. x = newline) cs) \<subseteq> set cs"
      by (meson set_takeWhileD subsetI)
    ultimately show ?thesis using True by (auto simp: Let_def)
  next
    case False
    then show ?thesis using 2(2) by auto
  qed
qed

lemma not_sublist_nnn_append:
  assumes a: "\<not> sublist nnn a" and b: "\<not> sublist nnn b" and h: "b = [] \<or> hd b \<noteq> newline"
  shows "\<not> sublist nnn (a @ b)"
proof
  assume "sublist nnn (a @ b)"
  then obtain xs1 xs2 where x: "nnn = xs1 @ xs2" "suffix xs1 a" "prefix xs2 b"
    using a b by (auto simp: sublist_append)
  show False
  proof (cases xs2)
    case Nil
    then have "suffix nnn a" using x by simp
    then show False using a suffix_imp_sublist by blast
  next
    case (Cons y ys)
    then have "y \<in> set nnn" using x(1) by (metis in_set_conv_decomp list.set_intros(1) set_append UnI2)
    then have "y = newline" by (simp add: nnn_def)
    moreover have "b \<noteq> [] \<and> hd b = y" using x(3) Cons by (auto simp: prefix_def)
    ultimately show False using h by auto
  qed
qed

lemma collapse_head:
  "collapse_newlines s = [] \<or> hd (collapse_newlines s) = hd s"
proof (cases s)
  case Nil
  then show ?thesis by simp
next
  case (Cons c cs)
  then show ?thesis by (auto simp: Let_def)
qed

lemma collapse_nonempty: "s \<noteq> [] \<Longrightarrow> collapse_newlines s \<noteq> []"
  by (cases s) (auto simp: Let_def)

lemma collapse_no_triple: "\<not> sublist nnn (collapse_newlines s)"
proof (induction s rule: collapse_newlines.induct)
  case 1
  then show ?case by (simp add: nnn_def)
next
  case (2 c cs)
  show ?case
  proof (cases "c = newline")
    case False
    have "\<not> prefix nnn (c # collapse_newlines cs)" using False by (simp add: nnn_def)
    then show ?thesis using False 2(2) by (simp add: sublist_Cons_right)
  next
    case True
    let ?run = "c # takeWhile (\<lambda>x. x = newline) cs"
    let ?rest = "dropWhile (\<lambda>x. x = newline) cs"
    let ?r = "if length ?run \<ge> 3 then [newline, newline] else ?run"
    have ih: "\<not> sublist nnn (collapse_newlines ?rest)" using 2(1)[OF True refl refl] .
    have len: "length ?r < 3" by auto
    have r: "\<not> sublist nnn ?r"
    proof
      assume "sublist nnn ?r"
      then have "length nnn \<le> length ?r" by (rule sublist_length_le)
      then show False using len by (simp add: nnn_def)
    qed
    have "?rest = [] \<or> hd ?rest \<noteq> newline"
      using hd_dropWhile[of "\<lambda>x. x = newline" cs] by blast
    then have h: "collapse_newlines ?rest = [] \<or> hd (collapse_newlines ?rest) \<noteq> newline"
      using collapse_head[of ?rest] by (metis collapse_newlines.simps(1))
    have "\<not> sublist nnn (?r @ collapse_newlines ?rest)"
      using not_sublist_nnn_append[OF r ih h] .
    then show ?thesis using True
      by (cases "2 \<le> length (takeWhile (\<lambda>x. x = newline) cs)") (simp_all add: Let_def)
  qed
qed

lemma sublist_suffix_of: "sublist xs (dropWhile P ys) \<Longrightarrow> sublist xs ys"
  by (meson suffix_dropWhile suffix_imp_sublist sublist_order.order_trans)

lemma collapse_id: "\<not> sublist nnn s \<Longrightarrow> collapse_newlines s = s"
proof (induction s rule: collapse_newlines.induct)
  case 1
  then show ?case by simp
next
  case (2 c cs)
  have tl: "\<not> sublist nnn cs" and pre: "\<not> prefix nnn (c # cs)"
    using 2(3) by (simp_all add: sublist_Cons_right)
  show ?case
  proof (cases "c = newline")
    case False
    then show ?thesis using 2(2)[OF False tl] by simp
  next
    case True
    let ?tw = "takeWhile (\<lambda>x. x = newline) cs"
    let ?rest = "dropWhile (\<lambda>x. x = newline) cs"
    have short: "length ?tw < 2"
    proof (rule ccontr)
      assume "\<not> length ?tw < 2"
      then obtain x y zs where tw: "?tw = x # y # zs"
        by (cases ?tw; cases "tl ?tw") auto
      then have "x = newline" "y = newline"
        using set_takeWhileD[of x "\<lambda>x. x = newline" cs] set_takeWhileD[of y "\<lambda>x. x = newline" cs]
        by auto
      moreover have "cs = ?tw @ ?rest" by simp
      ultimately have "c # cs = nnn @ (zs @ ?rest)"
        using True tw by (simp add: nnn_def)
      then have "prefix nnn (c # cs)" by (rule prefixI)
      then show False using pre by simp
    qed
    have "\<not> sublist nnn ?rest" using tl sublist_suffix_of by blast
    then have "collapse_newlines ?rest = ?rest" using 2(1)[OF True refl refl] by simp
    then show ?thesis using True short by (simp add: Let_def)
  qed
qed

lemma collapse_last:
  "s \<noteq> [] \<Longrightarrow> last s \<noteq> newline \<Longrightarrow> last (collapse_newlines s) = last s"
proof (induction s rule: collapse_newlines.induct)
  case 1
  then show ?case by simp
next
  case (2 c cs)
  show ?case
  proof (cases "c = newline")
    case False
    show ?thesis
    proof (cases "cs = []")
      case True
      then show ?thesis using False by simp
    next
      case ne: False
      then have "last (collapse_newlines cs) = last cs" using 2(2)[OF False ne] 2(4) by simp
      then show ?thesis using False ne collapse_nonempty[OF ne] by simp
    qed
  next
    case True
    let ?rest = "dropWhile (\<lambda>x. x = newline) cs"
    have cs: "cs \<noteq> []" using 2(4) True by auto
    then have lcs: "last cs \<noteq> newline" using 2(4) by simp
    have rest: "?rest \<noteq> []"
    proof
      assume "?rest = []"
      then have "\<forall>x \<in> set cs. x = newline" by (simp add: dropWhile_eq_Nil_conv)
      then show False using cs lcs last_in_set by blast
    qed
    have "cs = takeWhile (\<lambda>x. x = newline) cs @ ?rest" by simp
    then have lr: "last ?rest = last cs" using rest by (metis last_appendR)
    have "last (collapse_newlines ?rest) = last ?rest"
      using 2(1)[OF True refl refl rest] lr lcs by simp
    then show ?thesis
      using True collapse_nonempty[OF rest] lr cs by (simp add: Let_def)
  qed
qed

lemma collapse_trimmed: "trimmed s \<Longrightarrow> trimmed (collapse_newlines s)"
proof (cases "s = []")
  case True
  then show ?thesis by (simp add: trimmed_def)
next
  case False
  assume t: "trimmed s"
  then have h: "\<not> isspace (hd s)" and l: "\<not> isspace (last s)" using False by (auto simp: trimmed_def)
  from l have "last s \<noteq> newline" by auto
  then have "last (collapse_newlines s) = last s" using collapse_last[OF False] by simp
  moreover have "hd (collapse_newlines s) = hd s"
    using collapse_head[of s] collapse_nonempty[OF False] by simp
  ultimately show ?thesis using h l by (simp add: trimmed_def)
qed

lemma sanitize_clean:
  assumes "trimmed s" "CHR 0x60 \<notin> set s" "\<not> sublist nnn s"
  shows "sanitize_output s =
     (if length s > 500 then take 500 s @ ''... (truncated)'' else s)"
  using assms
  by (simp add: sanitize_output_def trimmed_strip replace_id collapse_id MAX_MESSAGE_LENGTH_def)

lemma marker_props:
  "newline \<notin> set ''... (truncated)''" "CHR 0x60 \<notin> set ''... (truncated)''"
  "\<not> isspace (last ''... (truncated)'')" "hd ''... (truncated)'' \<noteq> newline"
  "length ''... (truncated)'' = 15"
  by (simp_all add: newline_def isspace_def)

lemma not_sublist_nnn_marker: "\<not> sublist nnn ''... (truncated)''"
proof
  assume "sublist nnn ''... (truncated)''"
  then have "set nnn \<subseteq> set ''... (truncated)''" by (rule set_mono_sublist)
  then have "newline \<in> set ''... (truncated)''" by (simp add: nnn_def)
  then show False using marker_props(1) by blast
qed

lemma truncated_clean:
  assumes t: "trimmed s" and b: "CHR 0x60 \<notin> set s" and n: "\<not> sublist nnn s"
    and len: "length s > 500"
  shows "trimmed (take 500 s @ ''... (truncated)'')"
    and "CHR 0x60 \<notin> set (take 500 s @ ''... (truncated)'')"
    and "\<not> sublist nnn (take 500 s @ ''... (truncated)'')"
    and "length (take 500 s @ ''... (truncated)'') = 515"
proof -
  have ne: "s \<noteq> []" using len by auto
  have tne: "take 500 s \<noteq> []" using ne by simp
  have "hd (take 500 s @ ''... (truncated)'') = hd s" using tne ne by (simp add: hd_append)
  moreover have "last (take 500 s @ ''... (truncated)'') = last ''... (truncated)''" by simp
  ultimately show "trimmed (take 500 s @ ''... (truncated)'')"
    using t ne marker_props(3) unfolding trimmed_def by metis
  show "CHR 0x60 \<notin> set (take 500 s @ ''... (truncated)'')"
    using b marker_props(2) by (auto dest: in_set_takeD)
  have "\<not> sublist nnn (take 500 s)"
    using n by (meson take_is_prefix prefix_imp_sublist sublist_order.order_trans)
  then show "\<not> sublist nnn (take 500 s @ ''... (truncated)'')"
    using not_sublist_nnn_append[OF _ not_sublist_nnn_marker] marker_props(4) by blast
  show "length (take 500 s @ ''... (truncated)'') = 515" using len by simp
qed

text \<open>
  Claim C10. Sanitizing a sanitized message changes nothing, and a sanitized message
  contains no backtick and no run of three newlines and has at most 515 characters (the
  500 kept and the 15 of the truncation marker).
\<close>

theorem sanitize_idempotent:
  "sanitize_output (sanitize_output x) = sanitize_output x
   \<and> CHR 0x60 \<notin> set (sanitize_output x)
   \<and> \<not> sublist [newline, newline, newline] (sanitize_output x)
   \<and> length (sanitize_output x) \<le> 515"
proof -
  define s where "s = collapse_newlines (replace_char (CHR 0x60) (CHR 0x27) (strip x))"
  have q: "\<not> isspace (CHR 0x27)" by (simp add: isspace_def)
  have t: "trimmed s"
    unfolding s_def by (intro collapse_trimmed replace_trimmed strip_trimmed q)
  have "CHR 0x60 \<notin> set (replace_char (CHR 0x60) (CHR 0x27) (strip x))"
    by (rule replace_removes) simp
  then have b: "CHR 0x60 \<notin> set s"
    unfolding s_def using set_collapse by blast
  have n: "\<not> sublist nnn s" unfolding s_def by (rule collapse_no_triple)
  have san: "sanitize_output x = (if length s > 500 then take 500 s @ ''... (truncated)'' else s)"
    by (simp add: sanitize_output_def s_def MAX_MESSAGE_LENGTH_def)
  show ?thesis
  proof (cases "length s > 500")
    case False
    then have e: "sanitize_output x = s" using san by simp
    have "sanitize_output s = s" using sanitize_clean[OF t b n] False by simp
    then show ?thesis using e b n False by (simp add: nnn_def)
  next
    case True
    let ?y = "take 500 s @ ''... (truncated)''"
    have e: "sanitize_output x = ?y" using san True by simp
    note c = truncated_clean[OF t b n True]
    have "sanitize_output ?y = take 500 ?y @ ''... (truncated)''"
      using sanitize_clean[OF c(1) c(2) c(3)] c(4) by simp
    also have "take 500 ?y = take 500 s" using True by simp
    finally have "sanitize_output ?y = ?y" .
    then show ?thesis using e c by (simp add: nnn_def)
  qed
qed

theorem sanitize_idempotent_witness:
  "sanitize_output ('' Fix `a`'' @ [newline, newline, newline, newline] @ ''b '')
     = ''Fix '' @ [CHR 0x27] @ ''a'' @ [CHR 0x27, newline, newline] @ ''b''
   \<and> sanitize_output (sanitize_output ('' Fix `a`'' @ [newline, newline, newline, newline] @ ''b ''))
     = ''Fix '' @ [CHR 0x27] @ ''a'' @ [CHR 0x27, newline, newline] @ ''b''"
proof -
  have "sanitize_output ('' Fix `a`'' @ [newline, newline, newline, newline] @ ''b '')
     = ''Fix '' @ [CHR 0x27] @ ''a'' @ [CHR 0x27, newline, newline] @ ''b''"
    by (simp add: sanitize_output_def strip_def isspace_def newline_def replace_char_def
        MAX_MESSAGE_LENGTH_def Let_def)
  then show ?thesis
    using sanitize_idempotent [of "'' Fix `a`'' @ [newline, newline, newline, newline] @ ''b ''"]
    by simp
qed

section \<open>Input validation\<close>

lemma search_patterns_ex:
  "search_patterns re_search ps diff =
     (if list_ex (\<lambda>p. re_search p diff) ps then (True, SensitiveData) else (False, NoSensitiveData))"
  by (induction ps) auto

lemma strip_Nil [simp]: "strip [] = []"
  by (simp add: strip_def)

text \<open>
  Claim C9. \<open>validate_input\<close> returns the verdict of the first failing check in the
  order rate limit, empty content, size in KB, line count, diff markers in the first 20
  lines, sensitive data, and success exactly when no check fails; the checks recorded in
  the metadata are those up to the failing one, so no later check was run. The
  rate limiter keeps the client's time stamps younger than 60 seconds, rejects when 60 or
  more remain, and otherwise appends the current time; other clients are untouched. A
  match of a sensitive pattern never gives a valid verdict, and the result carries no
  rewritten diff.
\<close>

theorem validate_input_ordered:
  "(let (store', is_valid, msg, metadata) = validate_input re_search store current_time diff ip;
        checks = validation_checks re_search store current_time diff ip;
        kept = filter (\<lambda>t. current_time - t < 60) (store ip)
    in (is_valid, msg) = first_failure checks
     \<and> checks_performed metadata = checks_run checks
     \<and> (is_valid \<longleftrightarrow> (\<forall>(name, failed, m) \<in> set checks. \<not> failed))
     \<and> (\<forall>other. other \<noteq> ip \<longrightarrow> store' other = store other)
     \<and> store' ip = (if length kept \<ge> RATE_LIMIT_RPM then kept else kept @ [current_time])
     \<and> (length kept \<ge> RATE_LIMIT_RPM \<longrightarrow> \<not> is_valid \<and> msg = RateLimitExceeded)
     \<and> (list_ex (\<lambda>p. re_search p diff) SENSITIVE_PATTERNS \<longrightarrow> \<not> is_valid))"
  by (auto simp: validate_input_def validation_checks_def first_failure_def check_rate_limit_def
      check_sensitive_data_def search_patterns_ex Let_def split: if_splits)

theorem validate_input_ordered_witness:
  "(case validate_input example_search example_store 100 ''+x = 1'' ''10.0.0.1'' of
      (store', is_valid, msg, metadata) \<Rightarrow>
        is_valid \<and> msg = ValidationPassed \<and> store' ''10.0.0.1'' = [100]
        \<and> checks_performed metadata =
            [''rate_limit'', ''size_limit'', ''line_count'', ''format_validation'',
             ''sensitive_data'', ''all_passed''])
   \<and> (case validate_input example_search example_store 100 ''+password = 'hunter2' '' ''10.0.0.1'' of
      (store', is_valid, msg, metadata) \<Rightarrow>
        \<not> is_valid \<and> msg = SensitiveData
        \<and> checks_performed metadata =
            [''rate_limit'', ''size_limit'', ''line_count'', ''format_validation'',
             ''sensitive_data''])
   \<and> (case validate_input example_search example_store 100 ''+x = 1'' ''10.0.0.2'' of
      (store', is_valid, msg, metadata) \<Rightarrow>
        \<not> is_valid \<and> msg = RateLimitExceeded \<and> store' ''10.0.0.2'' = replicate 60 50
        \<and> checks_performed metadata = [''rate_limit''])"
proof -
  have s1: "strip ''+x = 1'' \<noteq> []" "strip ''+password = 'hunter2' '' \<noteq> []"
    by (simp_all add: strip_def isspace_def)
  have m: "has_diff_marker ''+x = 1''" "has_diff_marker ''+password = 'hunter2' ''"
    by (simp_all add: has_diff_marker_def)
  have e: "\<not> list_ex (\<lambda>p. example_search p ''+x = 1'') SENSITIVE_PATTERNS"
    "list_ex (\<lambda>p. example_search p ''+password = 'hunter2' '') SENSITIVE_PATTERNS"
    by (simp_all add: example_search_def SENSITIVE_PATTERNS_def string_eval)
  show ?thesis
    using validate_input_ordered [of example_search example_store 100 "''+x = 1''" "''10.0.0.1''"]
      validate_input_ordered [of example_search example_store 100 "''+password = 'hunter2' ''" "''10.0.0.1''"]
      validate_input_ordered [of example_search example_store 100 "''+x = 1''" "''10.0.0.2''"]
      s1 m e
    by (simp add: validation_checks_def first_failure_def example_store_def RATE_LIMIT_RPM_def
        MAX_DIFF_SIZE_KB_def MAX_DIFF_LINES_def newline_def split: prod.splits)
qed

section \<open>Validator agent\<close>

lemma evaluate_message_keys:
  "map_of (evaluate_message e g r d) ''hallucination_detected'' = None"
  "map_of (evaluate_message e g r d) ''ungrounded_ratio'' = None"
  "\<exists>q. map_of (evaluate_message e g r d) ''quality_score'' = Some (PyFloat q)"
  by (simp_all add: evaluate_message_def Let_def)

lemma metrics_reads:
  assumes "ms = (if reference \<noteq> [] then evaluate_message e d m reference else default_metrics)"
  shows "dict_get ms ''hallucination_detected'' (PyBool False) = PyBool False"
    and "dict_get ms ''ungrounded_ratio'' (PyFloat 0) = PyFloat 0"
    and "\<exists>q. dict_get ms ''quality_score'' (PyFloat 0.5) = PyFloat q"
proof -
  show "dict_get ms ''hallucination_detected'' (PyBool False) = PyBool False"
    using assms evaluate_message_keys(1)[of e d m reference]
    by (auto simp: dict_get_def default_metrics_def)
  show "dict_get ms ''ungrounded_ratio'' (PyFloat 0) = PyFloat 0"
    using assms evaluate_message_keys(2)[of e d m reference]
    by (auto simp: dict_get_def default_metrics_def)
  show "\<exists>q. dict_get ms ''quality_score'' (PyFloat 0.5) = PyFloat q"
  proof (cases "reference = []")
    case True
    then have "dict_get ms ''quality_score'' (PyFloat 0.5) = PyFloat 0.5"
      using assms by (simp add: dict_get_def default_metrics_def)
    then show ?thesis by (rule exI)
  next
    case False
    then show ?thesis
      using assms evaluate_message_keys(3)[of e d m reference] by (auto simp: dict_get_def)
  qed
qed

lemma assess_swapped: "assess_hallucination_severity (PyBool False) (PyFloat 0) = Inr ''NONE''"
  by (simp add: assess_hallucination_severity_def)

lemma validator_decision_facts:
  "\<exists>out q.
      validator_decision env message diff reference = Inr out
    \<and> out_metrics out =
        (if reference \<noteq> [] then evaluate_message (nlp env) diff message reference
         else default_metrics)
    \<and> (reference \<noteq> [] \<longrightarrow>
          map_of (out_metrics out) ''hallucination_detected'' = None
        \<and> map_of (out_metrics out) ''ungrounded_ratio'' = None)
    \<and> dict_get (out_metrics out) ''hallucination_detected'' (PyBool False) = PyBool False
    \<and> dict_get (out_metrics out) ''ungrounded_ratio'' (PyFloat 0) = PyFloat 0
    \<and> assess_hallucination_severity (PyBool False) (PyFloat 0) = Inr ''NONE''
    \<and> fb_severity (out_feedback out) = ''NONE''
    \<and> dict_get (out_metrics out) ''quality_score'' (PyFloat 0.5) = PyFloat q
    \<and> fb_confidence (out_feedback out) = get_confidence_level q ''NONE''
    \<and> out_is_valid out = (fb_confidence (out_feedback out) \<in> {''MEDIUM'', ''HIGH''} \<and> q \<ge> 0.3)
    \<and> fb_is_valid (out_feedback out) = out_is_valid out
    \<and> (\<forall>gov gov' out'. validator_execute env gov message diff reference = Inr (gov', out')
          \<longrightarrow> out' = out)"
proof -
  define ms where "ms = (if reference \<noteq> [] then evaluate_message (nlp env) diff message reference
         else default_metrics)"
  obtain q where q: "dict_get ms ''quality_score'' (PyFloat 0.5) = PyFloat q"
    using metrics_reads(3)[OF ms_def] by blast
  note r = metrics_reads(1,2)[OF ms_def]
  obtain out where out: "validator_decision env message diff reference = Inr out"
    and f: "out_metrics out = ms" "fb_severity (out_feedback out) = ''NONE''"
      "fb_confidence (out_feedback out) = get_confidence_level q ''NONE''"
      "out_is_valid out = (get_confidence_level q ''NONE'' \<in> {''MEDIUM'', ''HIGH''} \<and> q \<ge> 0.3)"
      "fb_is_valid (out_feedback out) = out_is_valid out"
    unfolding validator_decision_def Let_def ms_def[symmetric] r q
    by (simp add: assess_swapped)
  have k: "reference \<noteq> [] \<longrightarrow>
          map_of ms ''hallucination_detected'' = None \<and> map_of ms ''ungrounded_ratio'' = None"
    using evaluate_message_keys(1,2)[of "nlp env" diff message reference] by (simp add: ms_def)
  have ex: "\<forall>gov gov' out'. validator_execute env gov message diff reference = Inr (gov', out')
          \<longrightarrow> out' = out"
    by (auto simp: validator_execute_def Let_def out split: if_splits)
  show ?thesis
    apply (rule exI[of _ out], rule exI[of _ q])
    using out f k r q ex assess_swapped unfolding ms_def[symmetric] by simp
qed

text \<open>
  Claim C5. For every message, diff and reference, \<open>ValidatorAgent.execute\<close> decides
  with severity NONE. Its metrics are those of \<open>evaluate_message\<close> called with the diff,
  the message and the reference in this order (or the default metrics when there is no
  reference); the result of the evaluator has neither the key
  \<open>hallucination_detected\<close> nor \<open>ungrounded_ratio\<close>, so both reads give \<open>False\<close> and
  \<open>0.0\<close>; these are passed to \<open>assess_hallucination_severity\<close> as rate and flag, which
  answers NONE. So no hallucination issue is ever reported, the confidence is the one of
  severity NONE, and the verdict is: confidence MEDIUM or HIGH and quality score at least
  0.3. Every successful call of \<open>execute\<close> returns this decision.
\<close>

theorem validator_severity_none:
  "\<exists>out q.
      validator_decision env message diff reference = Inr out
    \<and> out_metrics out =
        (if reference \<noteq> [] then evaluate_message (nlp env) diff message reference
         else default_metrics)
    \<and> (reference \<noteq> [] \<longrightarrow>
          map_of (out_metrics out) ''hallucination_detected'' = None
        \<and> map_of (out_metrics out) ''ungrounded_ratio'' = None)
    \<and> dict_get (out_metrics out) ''hallucination_detected'' (PyBool False) = PyBool False
    \<and> dict_get (out_metrics out) ''ungrounded_ratio'' (PyFloat 0) = PyFloat 0
    \<and> assess_hallucination_severity (PyBool False) (PyFloat 0) = Inr ''NONE''
    \<and> fb_severity (out_feedback out) = ''NONE''
    \<and> dict_get (out_metrics out) ''quality_score'' (PyFloat 0.5) = PyFloat q
    \<and> fb_confidence (out_feedback out) = get_confidence_level q ''NONE''
    \<and> out_is_valid out = (fb_confidence (out_feedback out) \<in> {''MEDIUM'', ''HIGH''} \<and> q \<ge> 0.3)
    \<and> fb_is_valid (out_feedback out) = out_is_valid out
    \<and> (\<forall>gov gov' out'. validator_execute env gov message diff reference = Inr (gov', out')
          \<longrightarrow> out' = out)"
  by (rule validator_decision_facts)

theorem validator_severity_none_witness:
  "''Change x to one'' \<noteq> []
   \<and> (\<exists>out. validator_decision example_agent_env ''Update value of x'' ''+ x = 1'' ''Change x to one''
          = Inr out
        \<and> fb_severity (out_feedback out) = ''NONE''
        \<and> map_of (out_metrics out) ''hallucination_detected'' = None
        \<and> map_of (out_metrics out) ''ungrounded_ratio'' = None)"
  using validator_severity_none [of example_agent_env "''Update value of x''" "''+ x = 1''"
      "''Change x to one''"]
  by auto

section \<open>Agent loop\<close>

lemma validator_decision_total:
  "\<exists>out. validator_decision env message diff reference = Inr out"
  using validator_decision_facts[of env message diff reference] by blast

lemma validator_execute_Inr:
  assumes "validator_execute env gov m d r = Inr (gov', out)"
  shows "validator_decision env m d r = Inr out"
    and "validation_calls gov' = validation_calls gov + 1"
    and "\<exists>dec. audit_trail gov' = audit_trail gov @ [dec] \<and> agent_name dec = ''ValidatorAgent''
           \<and> output_data dec = [(''is_valid'', PyBool (out_is_valid out)),
                (''issues_count'', PyInt (int (length (fb_issues (out_feedback out)))))]"
  using assms
  by (auto simp: validator_execute_def Let_def log_agent_decision_def
      split: if_splits sum.splits)

lemma validator_execute_Inl:
  assumes "validator_execute env gov m d r = Inl (e, gov')"
  shows "e = ValueError" and "validation_calls gov' = validation_calls gov + 1"
    and "audit_trail gov' = audit_trail gov"
  using assms validator_decision_total[of env m d r]
  by (auto simp: validator_execute_def Let_def split: if_splits sum.splits)

lemma refiner_execute_Inr:
  assumes "refiner_execute env gov m fb d = Inr (gov', out)"
  shows "validation_calls gov' = validation_calls gov"
    and "\<exists>dec. audit_trail gov' = audit_trail gov @ [dec] \<and> agent_name dec = ''RefinerAgent''"
  using assms
  by (auto simp: refiner_execute_def Let_def log_agent_decision_def
      split: if_splits prod.splits)

lemma refiner_execute_Inl:
  assumes "refiner_execute env gov m fb d = Inl (e, gov')"
  shows "e = ValueError" and "gov' = gov"
  using assms
  by (auto simp: refiner_execute_def Let_def split: if_splits prod.splits)

lemma generator_execute_Inr:
  assumes "generator_execute env gov d = Inr (gov', m)"
  shows "validation_calls gov' = validation_calls gov"
    and "\<exists>dec. audit_trail gov' = audit_trail gov @ [dec] \<and> agent_name dec = ''GeneratorAgent''"
    and "10 \<le> length m \<and> length m \<le> 500"
    and "m = (case generate env d of Some m \<Rightarrow> m | None \<Rightarrow> ''Error generating message'')"
  using assms
  by (auto simp: generator_execute_def Let_def log_agent_decision_def validate_agent_output_def
      split: if_splits)

lemma generator_execute_Inl:
  assumes "generator_execute env gov d = Inl (e, gov')"
  shows "e = ValueError" and "gov' = gov"
  using assms
  by (auto simp: generator_execute_def Let_def split: if_splits)

lemma agent_loop_bounds:
  "(case agent_loop env mx d r gov cur it of
      Inl (e, gov') \<Rightarrow> e = ValueError
        \<and> validation_calls gov' \<le> validation_calls gov + (mx - it)
        \<and> (\<exists>ds. audit_trail gov' = audit_trail gov @ ds)
    | Inr (gov', cur', it') \<Rightarrow>
        validation_calls gov' \<le> validation_calls gov + (mx - it)
        \<and> (\<exists>ds. audit_trail gov' = audit_trail gov @ ds)
        \<and> it \<le> it' \<and> (it \<le> mx \<longrightarrow> it' \<le> mx))"
proof (induction env mx d r gov cur it rule: agent_loop.induct)
  case (1 env mx d r gov cur it)
  show ?case
  proof (cases "it < mx")
    case False
    then show ?thesis by (simp add: agent_loop.simps[of env mx d r gov cur it])
  next
    case True
    show ?thesis
    proof (cases "validator_execute env gov cur d r")
      case (Inl a)
      obtain e g where a: "a = (e, g)" by (cases a)
      show ?thesis
        using True Inl a validator_execute_Inl[of env gov cur d r e g]
        by (simp add: agent_loop.simps[of env mx d r gov cur it])
    next
      case (Inr b)
      obtain g1 v where b: "b = (g1, v)" by (cases b)
      note ve = validator_execute_Inr[of env gov cur d r g1 v, OF Inr[unfolded b]]
      show ?thesis
      proof (cases "out_is_valid v")
        case valid: True
        show ?thesis
          using True Inr b valid ve
          by (auto simp: agent_loop.simps[of env mx d r gov cur it])
      next
        case invalid: False
        show ?thesis
        proof (cases "refiner_execute env g1 cur (out_feedback v) d")
          case (Inl a)
          obtain e g where a: "a = (e, g)" by (cases a)
          show ?thesis
            using True Inr b invalid Inl a ve refiner_execute_Inl[of env g1 cur "out_feedback v" d e g]
            by (auto simp: agent_loop.simps[of env mx d r gov cur it])
        next
          case rr: (Inr c)
          obtain g2 ro where c: "c = (g2, ro)" by (cases c)
          note re = refiner_execute_Inr[of env g1 cur "out_feedback v" d g2 ro, OF rr[unfolded c]]
          have step: "agent_loop env mx d r gov cur it =
                agent_loop env mx d r g2 (refined_message ro) (it + 1)"
            using True Inr b invalid rr c
            by (simp add: agent_loop.simps[of env mx d r gov cur it])
          have ih: "(case agent_loop env mx d r g2 (refined_message ro) (it + 1) of
              Inl (e, gov') \<Rightarrow> e = ValueError
                \<and> validation_calls gov' \<le> validation_calls g2 + (mx - (it + 1))
                \<and> (\<exists>ds. audit_trail gov' = audit_trail g2 @ ds)
            | Inr (gov', cur', it') \<Rightarrow>
                validation_calls gov' \<le> validation_calls g2 + (mx - (it + 1))
                \<and> (\<exists>ds. audit_trail gov' = audit_trail g2 @ ds)
                \<and> it + 1 \<le> it' \<and> (it + 1 \<le> mx \<longrightarrow> it' \<le> mx))"
            using "1.IH"[OF True Inr b[symmetric] invalid rr c[symmetric]] .
          show ?thesis
            unfolding step
            using ih ve re True
            by (auto split: sum.splits prod.splits)
        qed
      qed
    qed
  qed
qed

lemma validator_issues:
  assumes "validator_decision env m d r = Inr v" "10 \<le> length m" "length m \<le> 500"
  shows "set (fb_issues (out_feedback v)) \<subseteq> range LowQualityIssue"
proof -
  define ms where "ms = (if r \<noteq> [] then evaluate_message (nlp env) d m r else default_metrics)"
  obtain q where q: "dict_get ms ''quality_score'' (PyFloat 0.5) = PyFloat q"
    using metrics_reads(3)[OF ms_def] by blast
  note rd = metrics_reads(1,2)[OF ms_def]
  show ?thesis
    using assms
    unfolding validator_decision_def Let_def ms_def[symmetric] rd q
    by (auto simp: assess_swapped split: if_splits)
qed

lemma refine_low_quality:
  "set iss \<subseteq> range LowQualityIssue \<Longrightarrow> foldl (refine_issue d) (m, cs) iss = (m, cs)"
  by (induction iss) auto

lemma apply_refinements_unchanged:
  assumes "set iss \<subseteq> range LowQualityIssue"
  shows "fst (apply_refinements m suggs iss d) = m"
  using refine_low_quality[OF assms, of d m "[]"]
  by (simp add: apply_refinements_def Let_def)

lemma refiner_keeps_message:
  assumes v: "validator_decision env m d r = Inr v" and len: "10 \<le> length m" "length m \<le> 500"
    and inv: "\<not> out_is_valid v"
    and gi: "validate_agent_input env (RefinerInput m (out_feedback v) d)"
    and go: "validate_agent_output env
            (RefinerOutput \<lparr> refined_message = m,
               changes_made = snd (apply_refinements m (fb_suggestions (out_feedback v))
                                     (fb_issues (out_feedback v)) d) \<rparr>)"
  shows "\<exists>gov' out. refiner_execute env gov m (out_feedback v) d = Inr (gov', out)
           \<and> refined_message out = m"
proof -
  have nv: "\<not> fb_is_valid (out_feedback v)"
    using validator_decision_facts[of env m d r] v inv by auto
  obtain x cs where a: "apply_refinements m (fb_suggestions (out_feedback v))
      (fb_issues (out_feedback v)) d = (x, cs)" by (cases "apply_refinements m (fb_suggestions (out_feedback v))
      (fb_issues (out_feedback v)) d")
  have "x = m"
    using apply_refinements_unchanged[OF validator_issues[OF v len], of m "fb_suggestions (out_feedback v)" d] a
    by simp
  then show ?thesis
    using gi go nv a by (simp add: refiner_execute_def Let_def)
qed

lemma agent_loop_exhausted:
  assumes v: "validator_decision env m d r = Inr v" and len: "10 \<le> length m" "length m \<le> 500"
    and inv: "\<not> out_is_valid v"
    and vi: "validate_agent_input env (ValidatorInput m d r)"
    and vo: "validate_agent_output env (ValidatorOutput v)"
    and gi: "validate_agent_input env (RefinerInput m (out_feedback v) d)"
    and go: "validate_agent_output env
            (RefinerOutput \<lparr> refined_message = m,
               changes_made = snd (apply_refinements m (fb_suggestions (out_feedback v))
                                     (fb_issues (out_feedback v)) d) \<rparr>)"
  shows "it \<le> mx \<Longrightarrow> \<exists>gov'. agent_loop env mx d r gov m it = Inr (gov', m, mx)
           \<and> validation_calls gov' = validation_calls gov + (mx - it)
           \<and> length (audit_trail gov') = length (audit_trail gov) + 2 * (mx - it)"
proof (induction "mx - it" arbitrary: it gov)
  case 0
  then have "it = mx" by simp
  then show ?case by (subst agent_loop.simps) simp
next
  case (Suc k)
  then have lt: "it < mx" by simp
  obtain g1 where ve: "validator_execute env gov m d r = Inr (g1, v)"
    using vi vo v by (simp add: validator_execute_def Let_def)
  note e1 = validator_execute_Inr(2,3)[OF ve]
  obtain g2 ro where re: "refiner_execute env g1 m (out_feedback v) d = Inr (g2, ro)"
    and ro: "refined_message ro = m"
    using refiner_keeps_message[OF v len inv gi go, of g1] by blast
  note e2 = refiner_execute_Inr[OF re]
  have step: "agent_loop env mx d r gov m it = agent_loop env mx d r g2 m (it + 1)"
    using lt ve inv re ro by (simp add: agent_loop.simps[of env mx d r gov m it])
  have "k = mx - (it + 1)" using Suc.hyps(2) by simp
  moreover have "it + 1 \<le> mx" using lt by simp
  ultimately obtain gov' where
    l: "agent_loop env mx d r g2 m (it + 1) = Inr (gov', m, mx)"
      "validation_calls gov' = validation_calls g2 + (mx - (it + 1))"
      "length (audit_trail gov') = length (audit_trail g2) + 2 * (mx - (it + 1))"
    using Suc.hyps(1)[of "it + 1" g2] by blast
  show ?case
    unfolding step using l e1 e2 lt by auto
qed

lemma run_bounds:
  "(case generate_commit_message_multi_agent env mx diff ref of
      Inl (e, gov) \<Rightarrow> e = ValueError \<and> validation_calls gov \<le> mx + 1
    | Inr (gov, res) \<Rightarrow>
        1 \<le> validation_calls gov \<and> validation_calls gov \<le> mx + 1
        \<and> agent_decisions res = audit_trail gov
        \<and> length (agent_decisions res) \<ge> 2
        \<and> agent_name (hd (agent_decisions res)) = ''GeneratorAgent''
        \<and> agent_name (last (agent_decisions res)) = ''ValidatorAgent''
        \<and> total_iterations res \<le> mx + 1
        \<and> (\<exists>v. validator_decision env (final_message res) diff ref = Inr v
               \<and> quality_metrics res = out_metrics v
               \<and> output_data (last (agent_decisions res)) =
                   [(''is_valid'', PyBool (out_is_valid v)),
                    (''issues_count'', PyInt (int (length (fb_issues (out_feedback v)))))]))"
proof -
  let ?g0 = "\<lparr> audit_trail = [], validation_calls = 0 \<rparr>"
  show ?thesis
  proof (cases "generator_execute env ?g0 diff")
    case (Inl a)
    obtain e g where a: "a = (e, g)" by (cases a)
    show ?thesis
      using Inl a generator_execute_Inl[of env ?g0 diff e g]
      by (simp add: generate_commit_message_multi_agent_def)
  next
    case (Inr b)
    obtain g1 m where b: "b = (g1, m)" by (cases b)
    note ge = generator_execute_Inr(1,2)[OF Inr[unfolded b]]
    obtain d0 where d0: "audit_trail g1 = [d0]" "agent_name d0 = ''GeneratorAgent''"
      using ge(2) by auto
    have c1: "validation_calls g1 = 0" using ge(1) by simp
    note lb = agent_loop_bounds[where env=env and mx=mx and d=diff and r=ref and gov=g1 and cur=m
        and it=0]
    show ?thesis
    proof (cases "agent_loop env mx diff ref g1 m 0")
      case (Inl a)
      obtain e g where a: "a = (e, g)" by (cases a)
      show ?thesis
        using Inr b Inl a lb c1
        by (simp add: generate_commit_message_multi_agent_def)
    next
      case lr: (Inr c)
      obtain g2 cur it where c: "c = (g2, cur, it)" by (cases c)
      from lb lr c c1 obtain ds where
        l: "validation_calls g2 \<le> mx" "audit_trail g2 = d0 # ds" "it \<le> mx"
        using d0 by auto
      show ?thesis
      proof (cases "validator_execute env g2 cur diff ref")
        case (Inl a)
        obtain e g where a: "a = (e, g)" by (cases a)
        show ?thesis
          using Inr b lr c Inl a l validator_execute_Inl[of env g2 cur diff ref e g]
          by (simp add: generate_commit_message_multi_agent_def)
      next
        case vr: (Inr f)
        obtain g3 v where f: "f = (g3, v)" by (cases f)
        note ve = validator_execute_Inr[OF vr[unfolded f]]
        obtain dv where dv: "audit_trail g3 = (d0 # ds) @ [dv]" "agent_name dv = ''ValidatorAgent''"
          "output_data dv = [(''is_valid'', PyBool (out_is_valid v)),
                    (''issues_count'', PyInt (int (length (fb_issues (out_feedback v)))))]"
          using ve(3) l(2) by auto
        have run: "generate_commit_message_multi_agent env mx diff ref =
            Inr (g3, \<lparr> final_message = cur, quality_metrics = out_metrics v,
                        agent_decisions = audit_trail g3, total_iterations = it + 1,
                        agents_involved =
                          (if it > 0
                           then [''GeneratorAgent'', ''ValidatorAgent'', ''RefinerAgent'']
                           else [''GeneratorAgent'', ''ValidatorAgent'']) \<rparr>)"
          using Inr b lr c vr f by (simp add: generate_commit_message_multi_agent_def)
        show ?thesis
          unfolding run using ve(1,2) dv l d0 by simp
      qed
    qed
  qed
qed

lemma run_converges:
  assumes gp: "governance_passes env diff ref (generated_message env diff)"
  shows "\<exists>gov res v. generate_commit_message_multi_agent env mx diff ref = Inr (gov, res)
           \<and> final_message res = generated_message env diff
           \<and> validator_decision env (generated_message env diff) diff ref = Inr v
           \<and> quality_metrics res = out_metrics v
           \<and> (out_is_valid v \<longrightarrow> total_iterations res = 1)
           \<and> (\<not> out_is_valid v \<longrightarrow>
                 total_iterations res = mx + 1 \<and> validation_calls gov = mx + 1
               \<and> length (agent_decisions res) = 2 * mx + 2)"
proof -
  let ?m = "generated_message env diff"
  let ?g0 = "\<lparr> audit_trail = [], validation_calls = 0 \<rparr>"
  obtain v where v: "validator_decision env ?m diff ref = Inr v"
    using validator_decision_total by blast
  have vi: "validate_agent_input env (ValidatorInput ?m diff ref)"
    and vo: "validate_agent_output env (ValidatorOutput v)"
    and ri: "validate_agent_input env (RefinerInput ?m (out_feedback v) diff)"
    and ro: "validate_agent_output env
            (RefinerOutput \<lparr> refined_message = ?m,
               changes_made = snd (apply_refinements ?m (fb_suggestions (out_feedback v))
                                     (fb_issues (out_feedback v)) diff) \<rparr>)"
    and gi: "validate_agent_input env (GeneratorInput diff)"
    and go: "validate_agent_output env (GeneratorOutput ?m)"
    using gp v unfolding governance_passes_def by blast+
  obtain g1 where g1: "generator_execute env ?g0 diff = Inr (g1, ?m)"
    using gi go by (simp add: generator_execute_def generated_message_def Let_def)
  note ge = generator_execute_Inr[OF g1]
  have len: "10 \<le> length ?m" "length ?m \<le> 500" using ge(3) by simp_all
  have t1: "length (audit_trail g1) = 1" "validation_calls g1 = 0" using ge(1,2) by auto
  have final: "\<And>g. \<exists>g'. validator_execute env g ?m diff ref = Inr (g', v)"
    using vi vo v by (simp add: validator_execute_def Let_def)
  show ?thesis
  proof (cases "out_is_valid v")
    case False
    obtain g2 where l: "agent_loop env mx diff ref g1 ?m 0 = Inr (g2, ?m, mx)"
      "validation_calls g2 = validation_calls g1 + (mx - 0)"
      "length (audit_trail g2) = length (audit_trail g1) + 2 * (mx - 0)"
      using agent_loop_exhausted[OF v len False vi vo ri ro, of 0 mx g1] by blast
    obtain g3 where g3: "validator_execute env g2 ?m diff ref = Inr (g3, v)"
      using final by blast
    note ve = validator_execute_Inr(2,3)[OF g3]
    have "generate_commit_message_multi_agent env mx diff ref =
            Inr (g3, \<lparr> final_message = ?m, quality_metrics = out_metrics v,
                        agent_decisions = audit_trail g3, total_iterations = mx + 1,
                        agents_involved =
                          (if mx > 0
                           then [''GeneratorAgent'', ''ValidatorAgent'', ''RefinerAgent'']
                           else [''GeneratorAgent'', ''ValidatorAgent'']) \<rparr>)"
      using g1 l(1) g3 by (simp add: generate_commit_message_multi_agent_def)
    moreover have "validation_calls g3 = mx + 1" using ve(1) l(2) t1 by simp
    moreover have "length (audit_trail g3) = 2 * mx + 2" using ve(2) l(3) t1 by auto
    ultimately show ?thesis using v False by simp
  next
    case True
    have "\<exists>g2. agent_loop env mx diff ref g1 ?m 0 = Inr (g2, ?m, 0)"
    proof (cases "0 < mx")
      case False
      then show ?thesis by (subst agent_loop.simps) simp
    next
      case pos: True
      obtain g' where "validator_execute env g1 ?m diff ref = Inr (g', v)" using final by blast
      then show ?thesis using pos True by (subst agent_loop.simps) simp
    qed
    then obtain g2 where l: "agent_loop env mx diff ref g1 ?m 0 = Inr (g2, ?m, 0)" by blast
    obtain g3 where g3: "validator_execute env g2 ?m diff ref = Inr (g3, v)"
      using final by blast
    have "generate_commit_message_multi_agent env mx diff ref =
            Inr (g3, \<lparr> final_message = ?m, quality_metrics = out_metrics v,
                        agent_decisions = audit_trail g3, total_iterations = 0 + 1,
                        agents_involved = [''GeneratorAgent'', ''ValidatorAgent''] \<rparr>)"
      using g1 l g3 by (simp add: generate_commit_message_multi_agent_def)
    then show ?thesis using v True by simp
  qed
qed

text \<open>
  Claim C4 as stated fails when a governance check of an agent fails: a generator that
  answers "Fix bug", which is shorter than ten characters, makes the generator agent raise,
  and so does an empty diff; the run ends with an exception and an empty audit trail.
\<close>

theorem agent_loop_raises_counterexample:
  "generate_commit_message_multi_agent
      (example_agent_env\<lparr> generate := (\<lambda>diff. Some ''Fix bug'') \<rparr>) 3 ''+ x = 1'' '''' =
     Inl (ValueError, \<lparr> audit_trail = [], validation_calls = 0 \<rparr>)
   \<and> generate_commit_message_multi_agent example_agent_env 3 '''' '''' =
     Inl (ValueError, \<lparr> audit_trail = [], validation_calls = 0 \<rparr>)"
  by (simp add: generate_commit_message_multi_agent_def generator_execute_def
      validate_agent_input_def validate_agent_output_def check_size_limits_def
      check_malicious_content_def check_output_format_def check_unsafe_output_def
      example_agent_env_def Let_def)

text \<open>
  Claim C4, amended. For every diff, reference, generator and iteration budget the run
  terminates, after at most \<open>max_iterations + 1\<close> calls of the validator, and it raises
  only the error of a failed governance check. When it returns, the audit trail has at
  least two decisions, the first by the generator and the last by the validator, and the
  result carries the last message with the metrics and the verdict of its validation.
  When the governance checks pass for the generated message, the run returns with that
  message: after one iteration when the message is valid, and when it is not, after
  the budget is used up, with \<open>max_iterations + 1\<close> validations and
  \<open>2 * max_iterations + 2\<close> decisions in the trail.
\<close>

theorem agent_loop_terminates:
  "(case generate_commit_message_multi_agent env mx diff ref of
      Inl (e, gov) \<Rightarrow> e = ValueError \<and> validation_calls gov \<le> mx + 1
    | Inr (gov, res) \<Rightarrow>
        1 \<le> validation_calls gov \<and> validation_calls gov \<le> mx + 1
        \<and> agent_decisions res = audit_trail gov
        \<and> length (agent_decisions res) \<ge> 2
        \<and> agent_name (hd (agent_decisions res)) = ''GeneratorAgent''
        \<and> agent_name (last (agent_decisions res)) = ''ValidatorAgent''
        \<and> total_iterations res \<le> mx + 1
        \<and> (\<exists>v. validator_decision env (final_message res) diff ref = Inr v
               \<and> quality_metrics res = out_metrics v
               \<and> output_data (last (agent_decisions res)) =
                   [(''is_valid'', PyBool (out_is_valid v)),
                    (''issues_count'', PyInt (int (length (fb_issues (out_feedback v)))))]))
   \<and> (governance_passes env diff ref (generated_message env diff) \<longrightarrow>
        (\<exists>gov res v. generate_commit_message_multi_agent env mx diff ref = Inr (gov, res)
           \<and> final_message res = generated_message env diff
           \<and> validator_decision env (generated_message env diff) diff ref = Inr v
           \<and> quality_metrics res = out_metrics v
           \<and> (out_is_valid v \<longrightarrow> total_iterations res = 1)
           \<and> (\<not> out_is_valid v \<longrightarrow>
                 total_iterations res = mx + 1 \<and> validation_calls gov = mx + 1
               \<and> length (agent_decisions res) = 2 * mx + 2)))"
  using run_bounds[where env=env and mx=mx and diff=diff and ref=ref]
    run_converges[where env=env and mx=mx and diff=diff and ref=ref] by blast

lemma ex2_tokens:
  "word_tokenize example_nltk (lower ''+ x = 1'') = [''+'', ''x'', ''='', ''1'']"
  "word_tokenize example_nltk (lower ''Update value of x'') = [''update'', ''value'', ''of'', ''x'']"
  by (simp_all add: example_eval)

lemma ex2_bleu: "compute_bleu example_nltk ''+ x = 1'' ''Update value of x'' = 0"
  unfolding compute_bleu_def Let_def ex2_tokens
  by (simp add: bleu_of_tokens_def bleu_precision_def get_ngrams_def ngram_list_def Let_def upt_rec
      float_round_0)

lemma ex2_rougeL: "rougeL (compute_rouge example_nltk ''+ x = 1'' ''Update value of x'') = 25"
  unfolding compute_rouge_def Let_def ex2_tokens
  by (simp add: rouge_of_tokens_def rouge_l_def lcs_eq_rec eval_nat_numeral float_round_numeral
      Let_def)

lemma ex2_overlap: "compute_word_overlap example_nltk ''+ x = 1'' ''Update value of x'' = 0.1667"
  unfolding word_overlap_eq jaccard_spec_def Let_def ex2_tokens
  by (simp add: example_nltk_def card_insert_if float_round_def round_to_int_def)

lemma ex2_detect: "\<not> detected (detect_hallucination example_nltk ''+ x = 1'' ''Change x to one'')"
  by (simp add: detect_hallucination_def detect_hallucination_with_def extract_meaningful_tokens_def
      example_eval Let_def)

lemma ex2_quality:
  "map_of (evaluate_message example_nltk ''+ x = 1'' ''Update value of x'' ''Change x to one'')
     ''quality_score'' = Some (PyFloat 0.225)"
  using ex2_detect
  by (simp add: evaluate_message_def Let_def ex2_bleu ex2_rougeL ex2_overlap
      compute_quality_score_def example_tie float_round_def round_to_int_def)

lemma ex2_governance:
  "governance_passes example_agent_env ''+ x = 1'' ''Change x to one'' ''Update value of x''"
  by (simp add: governance_passes_def validate_agent_input_def validate_agent_output_def
      check_size_limits_def check_malicious_content_def check_output_format_def
      check_unsafe_output_def example_agent_env_def Let_def)

lemma ex2_generated: "generated_message example_agent_env ''+ x = 1'' = ''Update value of x''"
  by (simp add: generated_message_def example_agent_env_def)

lemma ex2_invalid:
  assumes "validator_decision example_agent_env ''Update value of x'' ''+ x = 1'' ''Change x to one''
       = Inr v"
  shows "\<not> out_is_valid v"
proof -
  obtain out q where o:
    "validator_decision example_agent_env ''Update value of x'' ''+ x = 1'' ''Change x to one'' = Inr out"
    "out_metrics out = evaluate_message (nlp example_agent_env) ''+ x = 1'' ''Update value of x''
        ''Change x to one''"
    "dict_get (out_metrics out) ''quality_score'' (PyFloat 0.5) = PyFloat q"
    "out_is_valid out = (fb_confidence (out_feedback out) \<in> {''MEDIUM'', ''HIGH''} \<and> q \<ge> 0.3)"
    using validator_decision_facts[where env=example_agent_env and message="''Update value of x''"
        and diff="''+ x = 1''" and reference="''Change x to one''"]
    by (elim exE conjE) (simp split: if_splits)
  have "q = 0.225"
    using o(2,3) ex2_quality by (simp add: dict_get_def example_agent_env_def)
  then have "\<not> out_is_valid out" using o(4) by simp
  then show ?thesis using assms o(1) by simp
qed

theorem agent_loop_terminates_witness:
  "governance_passes example_agent_env ''+ x = 1'' ''Change x to one''
      (generated_message example_agent_env ''+ x = 1'')
   \<and> (\<exists>gov res. generate_commit_message_multi_agent example_agent_env 3 ''+ x = 1'' ''Change x to one''
          = Inr (gov, res)
        \<and> final_message res = ''Update value of x''
        \<and> total_iterations res = 4 \<and> validation_calls gov = 4
        \<and> length (agent_decisions res) = 8)"
proof -
  have gp: "governance_passes example_agent_env ''+ x = 1'' ''Change x to one''
      (generated_message example_agent_env ''+ x = 1'')"
    by (simp add: ex2_generated ex2_governance)
  obtain gov res v where
    r: "generate_commit_message_multi_agent example_agent_env 3 ''+ x = 1'' ''Change x to one''
          = Inr (gov, res)"
    "final_message res = generated_message example_agent_env ''+ x = 1''"
    "validator_decision example_agent_env (generated_message example_agent_env ''+ x = 1'')
        ''+ x = 1'' ''Change x to one'' = Inr v"
    "\<not> out_is_valid v \<longrightarrow>
       total_iterations res = 3 + 1 \<and> validation_calls gov = 3 + 1
       \<and> length (agent_decisions res) = 2 * 3 + 2"
    using agent_loop_terminates [where env=example_agent_env and mx=3 and diff="''+ x = 1''"
        and ref="''Change x to one''"] gp
    by blast
  have "\<not> out_is_valid v" using r(3) ex2_invalid by (simp add: ex2_generated)
  then show ?thesis using gp r by (auto simp: ex2_generated)
qed


end
